theory Spec2Isabelle
  imports Main
begin

section \<open>Values, errors and effects\<close>

text \<open>
  The engine of \<^verbatim>\<open>src/sources/Engine.ts\<close> is asynchronous code over the file system, the
  network and a handful of helper modules. Every \<^verbatim>\<open>async\<close> function is modelled as a function
  from a state to a result and a new state. A result is \<open>Inr\<close> of the value the promise
  resolves to, or \<open>Inl\<close> of the error it rejects with. The state is the world (the
  Last-Known-Good file and whatever the install cache and the project directory hold)
  together with the list of calls made so far to the file system and the collaborators.
\<close>

text \<open>
  An error object raised by the file system or by a collaborator. The engine only ever
  inspects its \<^verbatim>\<open>code\<close> property (\<^verbatim>\<open>ENOENT\<close>).
\<close>

datatype NodeError = NodeError (code: "string option") (message: string)

text \<open>
  What an engine function rejects with: a \<^verbatim>\<open>UsageError\<close> or an \<^verbatim>\<open>Error\<close> the engine throws
  itself (with its message), a \<^verbatim>\<open>TypeError\<close> of the JavaScript runtime (a property read on
  \<^verbatim>\<open>undefined\<close>), or an error of the file system or of a collaborator, passed on unmodified.
\<close>

datatype error =
    UsageError string
  | Error string
  | TypeError string
  | Rejected NodeError

text \<open>
  A JSON value. The members of an object are a map: the order of the keys and the layout
  of the text play no role in the engine.
\<close>

datatype json =
    JNull
  | JBool bool
  | JNumber int
  | JString string
  | JArray "json list"
  | JObject "string \<rightharpoonup> json"

text \<open>The text of a file, by what \<^verbatim>\<open>JSON.parse\<close> makes of it: a value, or a \<^verbatim>\<open>SyntaxError\<close>.\<close>

datatype content = Json json | NotJson

text \<open>
  The world. \<open>lkgFile\<close> is what reading \<^verbatim>\<open>lastKnownGood.json\<close> in the corepack home folder
  answers: the text, or the error of the read (code \<^verbatim>\<open>ENOENT\<close> when there is no such file).
  \<open>mkdirError\<close> and \<open>writeError\<close> are the errors that creating the home folder and writing
  the file raise, if any; a write that fails is taken to fail before it touches the file.
  \<open>ext\<close> is the state of the collaborators (install cache, project directory), opaque here.
\<close>

record 'x world =
  lkgFile :: "NodeError + content"
  mkdirError :: "NodeError option"
  writeError :: "NodeError option"
  ext :: 'x

record Descriptor =
  dname :: string
  drange :: string

text \<open>
  TypeScript declares \<^verbatim>\<open>reference: string\<close>, but \<^verbatim>\<open>executePackageManagerRequest\<close> stores
  \<^verbatim>\<open>undefined as any\<close> in it, so at run time a reference is a string or \<^verbatim>\<open>undefined\<close> (\<open>None\<close>).
\<close>

record Locator =
  lname :: string
  reference :: "string option"

record RegistrySpec =
  registry_type :: string
  registry_url :: string
  fields_tags :: string
  fields_versions :: string

text \<open>\<open>spec_bin\<close> holds the binary names: the array, or the keys of the object.\<close>

record PackageManagerSpec =
  spec_url :: string
  spec_bin :: "string list option"
  spec_registry :: RegistrySpec

text \<open>
  \<open>ranges\<close> holds the entries of \<^verbatim>\<open>definition.ranges\<close> in the order \<^verbatim>\<open>Object.keys\<close> gives
  them: the order of declaration, for keys such as \<^verbatim>\<open>1.x\<close> that are not array indices.
  \<open>transparent_default\<close> and \<open>transparent_commands\<close> are \<^verbatim>\<open>transparent.default\<close> and
  \<^verbatim>\<open>transparent.commands\<close>.
\<close>

record Definition =
  ranges :: "(string \<times> PackageManagerSpec) list"
  defaultVersion :: string
  fetchLatestFrom :: RegistrySpec
  transparent_default :: "string option"
  transparent_commands :: "string list list"

text \<open>What \<^verbatim>\<open>installVersion\<close> reports: the verified hash, and the rest kept as it is.\<close>

record InstallInfo =
  hash :: string
  location :: string

record PreparedPackageManagerInfo =
  prepared_info :: InstallInfo
  prepared_locator :: Locator
  prepared_spec :: PackageManagerSpec

datatype LoadSpecResult =
    NoProject
  | NoSpec string
  | Found string Descriptor

text \<open>The calls the trace records.\<close>

datatype call =
    ReadFile
  | Mkdir
  | WriteFile content
  | FindInstalledVersion Descriptor
  | FetchAvailableTags RegistrySpec
  | FetchAvailableVersions RegistrySpec
  | FetchLatestStableVersion RegistrySpec
  | InstallVersion Locator PackageManagerSpec
  | LoadSpec string
  | SetLocalPackageManager string PreparedPackageManagerInfo
  | RunVersion Locator PreparedPackageManagerInfo string "string list"

fun is_network :: "call \<Rightarrow> bool" where
  "is_network (FetchAvailableTags _) = True"
| "is_network (FetchAvailableVersions _) = True"
| "is_network (FetchLatestStableVersion _) = True"
| "is_network _ = False"

fun is_tag_request :: "call \<Rightarrow> bool" where
  "is_tag_request (FetchAvailableTags _) = True"
| "is_tag_request _ = False"

fun is_write :: "call \<Rightarrow> bool" where
  "is_write (WriteFile _) = True"
| "is_write _ = False"

type_synonym 'x state = "'x world \<times> call list"

type_synonym ('x, 'a) io = "'x state \<Rightarrow> (error + 'a) \<times> 'x state"

text \<open>A collaborator that reads or changes the world: it sees the world, not the trace.\<close>

type_synonym ('x, 'a) effect = "'x world \<Rightarrow> (NodeError + 'a) \<times> 'x world"

definition return :: "'a \<Rightarrow> ('x, 'a) io" where
  "return v = (\<lambda>s. (Inr v, s))"

definition throw :: "error \<Rightarrow> ('x, 'a) io" where
  "throw e = (\<lambda>s. (Inl e, s))"

text \<open>\<^verbatim>\<open>const v = await m; k(v)\<close>: a rejection of \<open>m\<close> ends the function.\<close>

definition await :: "('x, 'a) io \<Rightarrow> ('a \<Rightarrow> ('x, 'b) io) \<Rightarrow> ('x, 'b) io" where
  "await m k = (\<lambda>s. case m s of (Inl e, s') \<Rightarrow> (Inl e, s') | (Inr v, s') \<Rightarrow> k v s')"

text \<open>\<^verbatim>\<open>try { m } catch (err) { h(err) }\<close>\<close>

definition try_catch :: "('x, 'a) io \<Rightarrow> (error \<Rightarrow> ('x, 'a) io) \<Rightarrow> ('x, 'a) io" where
  "try_catch m h = (\<lambda>s. case m s of (Inl e, s') \<Rightarrow> h e s' | (Inr v, s') \<Rightarrow> (Inr v, s'))"

text \<open>A call of a collaborator with state: it is recorded, and its error is passed on.\<close>

definition invoke :: "call \<Rightarrow> ('x, 'a) effect \<Rightarrow> ('x, 'a) io" where
  "invoke c f = (\<lambda>(w, t). case f w of
       (Inl e, w') \<Rightarrow> (Inl (Rejected e), (w', t @ [c]))
     | (Inr v, w') \<Rightarrow> (Inr v, (w', t @ [c])))"

text \<open>
  A request to the network: it is recorded, and it leaves the world alone. What a registry
  answers is fixed for the time of one engine call.
\<close>

definition request :: "call \<Rightarrow> NodeError + 'a \<Rightarrow> ('x, 'a) io" where
  "request c r = (\<lambda>(w, t). case r of
       Inl e \<Rightarrow> (Inl (Rejected e), (w, t @ [c]))
     | Inr v \<Rightarrow> (Inr v, (w, t @ [c])))"

section \<open>The Last-Known-Good store\<close>

text \<open>
  The object \<^verbatim>\<open>getLastKnownGood\<close> returns. It is a plain object, or, when the file holds a
  JSON array, that array: \<^verbatim>\<open>typeof\<close> calls an array an object too. A plain object is the map of
  its own properties. An array is its elements (\<open>None\<close> is a hole) and the named properties
  set on it later. Tool names are taken to be neither array indices nor \<^verbatim>\<open>length\<close>, and not
  to be names inherited from \<^verbatim>\<open>Object.prototype\<close>: under such a name an array, or the
  prototype, would answer itself.
\<close>

datatype store =
    PlainObject "string \<rightharpoonup> string"
  | ArrayObject "string option list" "string \<rightharpoonup> string"

fun getProperty :: "store \<Rightarrow> string \<Rightarrow> string option" where
  "getProperty (PlainObject m) k = m k"
| "getProperty (ArrayObject xs m) k = m k"

text \<open>
  \<^verbatim>\<open>obj[k] = v\<close>. Assigning \<^verbatim>\<open>undefined\<close> is modelled as removing the property: reading the
  property back and \<^verbatim>\<open>JSON.stringify\<close> cannot tell the two apart.
\<close>

fun setProperty :: "store \<Rightarrow> string \<Rightarrow> string option \<Rightarrow> store" where
  "setProperty (PlainObject m) k v = PlainObject (m(k := v))"
| "setProperty (ArrayObject xs m) k v = ArrayObject xs (m(k := v))"

text \<open>
  \<^verbatim>\<open>JSON.stringify\<close>: an object gives its properties, an array gives its elements only
  (a hole is written \<^verbatim>\<open>null\<close>) and drops the named properties.
\<close>

fun JSON_stringify :: "store \<Rightarrow> json" where
  "JSON_stringify (PlainObject m) = JObject (\<lambda>k. map_option JString (m k))"
| "JSON_stringify (ArrayObject xs m) =
     JArray (map (\<lambda>x. case x of None \<Rightarrow> JNull | Some s \<Rightarrow> JString s) xs)"

text \<open>\<^verbatim>\<open>!parsed\<close>\<close>

fun falsy :: "json \<Rightarrow> bool" where
  "falsy JNull = True"
| "falsy (JBool b) = (\<not> b)"
| "falsy (JNumber n) = (n = 0)"
| "falsy (JString s) = (s = [])"
| "falsy (JArray xs) = False"
| "falsy (JObject m) = False"

text \<open>\<^verbatim>\<open>typeof parsed === `object`\<close>, which holds of \<^verbatim>\<open>null\<close> as well.\<close>

fun typeof_object :: "json \<Rightarrow> bool" where
  "typeof_object JNull = True"
| "typeof_object (JArray xs) = True"
| "typeof_object (JObject m) = True"
| "typeof_object _ = False"

text \<open>\<^verbatim>\<open>typeof value === `string`\<close>, giving the string.\<close>

fun as_string :: "json \<Rightarrow> string option" where
  "as_string (JString s) = Some s"
| "as_string _ = None"

text \<open>
  The \<^verbatim>\<open>forEach\<close> over \<^verbatim>\<open>Object.entries(parsed)\<close> that deletes every entry whose value is not
  a string, for a value that passed the two tests before it.
\<close>

fun deleteNonStrings :: "json \<Rightarrow> store" where
  "deleteNonStrings (JObject m) = PlainObject (\<lambda>k. Option.bind (m k) as_string)"
| "deleteNonStrings (JArray xs) = ArrayObject (map as_string xs) Map.empty"
| "deleteNonStrings _ = PlainObject Map.empty"

definition readFile :: "('x, content) io" where
  "readFile = (\<lambda>(w, t). case lkgFile w of
       Inl e \<Rightarrow> (Inl (Rejected e), (w, t @ [ReadFile]))
     | Inr raw \<Rightarrow> (Inr raw, (w, t @ [ReadFile])))"

definition mkdir :: "('x, unit) io" where
  "mkdir = (\<lambda>(w, t). case mkdirError w of
       Some e \<Rightarrow> (Inl (Rejected e), (w, t @ [Mkdir]))
     | None \<Rightarrow> (Inr (), (w, t @ [Mkdir])))"

definition writeFile :: "content \<Rightarrow> ('x, unit) io" where
  "writeFile content = (\<lambda>(w, t). case writeError w of
       Some e \<Rightarrow> (Inl (Rejected e), (w, t @ [WriteFile content]))
     | None \<Rightarrow> (Inr (), (w\<lparr>lkgFile := Inr content\<rparr>, t @ [WriteFile content])))"

text \<open>\<^verbatim>\<open>(err as NodeError)?.code === `ENOENT`\<close>: only an error object has a code.\<close>

fun is_ENOENT :: "error \<Rightarrow> bool" where
  "is_ENOENT (Rejected e) = (code e = Some ''ENOENT'')"
| "is_ENOENT _ = False"

text \<open>
  Engine.ts, lines 34 to 58. The first \<^verbatim>\<open>try\<close> returns the empty object when the read fails
  with \<^verbatim>\<open>ENOENT\<close> and throws the error again otherwise; the second returns the empty
  object when \<^verbatim>\<open>JSON.parse\<close> throws.
\<close>

definition getLastKnownGood :: "('x, store) io" where
  "getLastKnownGood = (\<lambda>s. case readFile s of
       (Inl err, s') \<Rightarrow>
         if is_ENOENT err then return (PlainObject Map.empty) s' else throw err s'
     | (Inr raw, s') \<Rightarrow>
         (case raw of
            NotJson \<Rightarrow> return (PlainObject Map.empty)
          | Json parsed \<Rightarrow>
              if falsy parsed then return (PlainObject Map.empty)
              else if \<not> typeof_object parsed then return (PlainObject Map.empty)
              else return (deleteNonStrings parsed)) s')"

text \<open>Engine.ts, lines 60 to 64.\<close>

definition createLastKnownGoodFile :: "store \<Rightarrow> ('x, unit) io" where
  "createLastKnownGoodFile lastKnownGood =
     await mkdir (\<lambda>_. writeFile (Json (JSON_stringify lastKnownGood)))"

text \<open>Engine.ts, lines 66 to 70.\<close>

definition getLastKnownGoodFromFileContent :: "store \<Rightarrow> string \<Rightarrow> string option" where
  "getLastKnownGoodFromFileContent lastKnownGood packageManager =
     getProperty lastKnownGood packageManager"

text \<open>Engine.ts, lines 72 to 82. The two log lines are not modelled.\<close>

definition activatePackageManager :: "store \<Rightarrow> Locator \<Rightarrow> ('x, unit) io" where
  "activatePackageManager lastKnownGood locator =
     (if getProperty lastKnownGood (lname locator) = reference locator then return ()
      else createLastKnownGoodFile
             (setProperty lastKnownGood (lname locator) (reference locator)))"

text \<open>Engine.ts, lines 189 to 192: the method of the class.\<close>

definition Engine_activatePackageManager :: "Locator \<Rightarrow> ('x, unit) io" where
  "Engine_activatePackageManager locator =
     await getLastKnownGood (\<lambda>lastKnownGood. activatePackageManager lastKnownGood locator)"

section \<open>The engine and its collaborators\<close>

text \<open>
  What \<^verbatim>\<open>Engine.ts\<close> imports and this repository's sources do not hold is taken as a
  parameter, under the name the source calls it by: the configuration
  (\<^verbatim>\<open>this.config.definitions\<close>), the environment (\<^verbatim>\<open>process.env\<close>), the predicates of
  \<^verbatim>\<open>types.ts\<close> and \<^verbatim>\<open>corepackUtils.ts\<close>, the functions of the \<^verbatim>\<open>semver\<close> package and of
  \<^verbatim>\<open>semverUtils.ts\<close>, the registry requests, and the collaborators that read or change the
  install cache and the project (\<^verbatim>\<open>folderUtils.getInstallFolder()\<close>, a constant path, is
  left out of their arguments). \<open>semverValid\<close> and \<open>semverValidRange\<close> stand for the
  truthiness of what the two functions return.
\<close>

record 'x Engine =
  definitions :: "string \<rightharpoonup> Definition"
  process_env :: "string \<rightharpoonup> string"
  isSupportedPackageManager :: "string \<Rightarrow> bool"
  isSupportedPackageManagerDescriptor :: "Descriptor \<Rightarrow> bool"
  isSupportedPackageManagerLocator :: "Locator \<Rightarrow> bool"
  getRegistryFromPackageManagerSpec :: "PackageManagerSpec \<Rightarrow> RegistrySpec"
  semverValid :: "string \<Rightarrow> bool"
  semverValidRange :: "string \<Rightarrow> bool"
  semverRcompare :: "string \<Rightarrow> string \<Rightarrow> int"
  satisfiesWithPrereleases :: "string option \<Rightarrow> string \<Rightarrow> bool"
  fetchAvailableTags :: "RegistrySpec \<Rightarrow> NodeError + (string \<rightharpoonup> string)"
  fetchAvailableVersions :: "RegistrySpec \<Rightarrow> NodeError + string list"
  fetchLatestStableVersion :: "RegistrySpec \<Rightarrow> NodeError + string"
  findInstalledVersion :: "Descriptor \<Rightarrow> ('x, string option) effect"
  installVersion :: "Locator \<Rightarrow> PackageManagerSpec \<Rightarrow> ('x, InstallInfo) effect"
  loadSpec :: "string \<Rightarrow> ('x, LoadSpecResult) effect"
  setLocalPackageManager :: "string \<Rightarrow> PreparedPackageManagerInfo \<Rightarrow> ('x, unit) effect"
  runVersion ::
    "Locator \<Rightarrow> PreparedPackageManagerInfo \<Rightarrow> string \<Rightarrow> string list \<Rightarrow> ('x, unit) effect"
  path_dirname :: "string \<Rightarrow> string"

text \<open>A template literal \<^verbatim>\<open>`${v}`\<close> of a string that may be \<^verbatim>\<open>undefined\<close>.\<close>

fun template :: "string option \<Rightarrow> string" where
  "template None = ''undefined''"
| "template (Some s) = s"

text \<open>The truthiness of a string that may be \<^verbatim>\<open>null\<close> or \<^verbatim>\<open>undefined\<close>.\<close>

fun truthy :: "string option \<Rightarrow> bool" where
  "truthy None = False"
| "truthy (Some s) = (s \<noteq> [])"

text \<open>\<^verbatim>\<open>xs.join(sep)\<close>\<close>

fun join :: "string \<Rightarrow> string list \<Rightarrow> string" where
  "join sep [] = []"
| "join sep [x] = x"
| "join sep (x # y # ys) = x @ sep @ join sep (y # ys)"

text \<open>
  \<^verbatim>\<open>[...new Set(xs)]\<close>: the elements in the order of their first occurrence, each once.
\<close>

definition dedup :: "'a list \<Rightarrow> 'a list" where
  "dedup xs = fold (\<lambda>x seen. if x \<in> set seen then seen else seen @ [x]) xs []"

text \<open>
  \<^verbatim>\<open>xs.sort(cmp)\<close>: the sort is stable, and for a comparator that is a consistent order
  every stable sort gives the list below. An element goes before the first one it does
  not compare greater than.
\<close>

fun insert_by :: "('a \<Rightarrow> 'a \<Rightarrow> int) \<Rightarrow> 'a \<Rightarrow> 'a list \<Rightarrow> 'a list" where
  "insert_by cmp x [] = [x]"
| "insert_by cmp x (y # ys) = (if cmp x y \<le> 0 then x # y # ys else y # insert_by cmp x ys)"

definition sort_by :: "('a \<Rightarrow> 'a \<Rightarrow> int) \<Rightarrow> 'a list \<Rightarrow> 'a list" where
  "sort_by cmp xs = foldr (insert_by cmp) xs []"

text \<open>
  \<^verbatim>\<open>Promise.all\<close>: every promise runs, here in the order of the list; the order in which
  they complete is not modelled, and of several rejections the first of the list is taken.
\<close>

fun Promise_all :: "('x, 'a) io list \<Rightarrow> ('x, 'a list) io" where
  "Promise_all [] = return []"
| "Promise_all (m # ms) = (\<lambda>s. case m s of (r, s') \<Rightarrow>
       (case Promise_all ms s' of (rs, s'') \<Rightarrow>
          (case r of
             Inl e \<Rightarrow> (Inl e, s'')
           | Inr v \<Rightarrow> (case rs of Inl e' \<Rightarrow> (Inl e', s'') | Inr vs \<Rightarrow> (Inr (v # vs), s'')))))"

text \<open>
  \<^verbatim>\<open>s.replace(/\+.*/, ``)\<close>: the first \<^verbatim>\<open>+\<close> and what follows it on its line are removed.
\<close>

definition is_line_terminator :: "char \<Rightarrow> bool" where
  "is_line_terminator c = (c = CHR 0x0A \<or> c = CHR 0x0D)"

definition replace_hash :: "string \<Rightarrow> string" where
  "replace_hash s =
     takeWhile (\<lambda>c. c \<noteq> CHR ''+'') s
       @ dropWhile (\<lambda>c. \<not> is_line_terminator c) (dropWhile (\<lambda>c. c \<noteq> CHR ''+'') s)"

subsection \<open>The messages of the errors the engine throws\<close>

text \<open>\<open>quote\<close> and \<open>dquote\<close> are the characters \<^verbatim>\<open>'\<close> and \<^verbatim>\<open>"\<close>.\<close>

definition quote :: string where
  "quote = [CHR 0x27]"

definition dquote :: string where
  "dquote = [CHR 0x22]"

definition UnsupportedPackageManager :: "string \<Rightarrow> error" where
  "UnsupportedPackageManager n =
     UsageError (''This package manager ('' @ n @ '') isn'' @ quote
       @ ''t supported by this corepack build'')"

definition IllegalCustomURL :: "Descriptor \<Rightarrow> error" where
  "IllegalCustomURL descriptor =
     UsageError (''Illegal use of URL for known package manager. Instead, select a specific version, or set COREPACK_ENABLE_UNSAFE_CUSTOM_URLS=1 in your environment (''
       @ dname descriptor @ ''@'' @ drange descriptor @ '')'')"

definition TagsNotAllowed :: error where
  "TagsNotAllowed =
     UsageError (''Packages managers can'' @ quote @ ''t be referenced via tags in this context'')"

definition TagNotFound :: "string \<Rightarrow> error" where
  "TagNotFound tag = UsageError (''Tag not found ('' @ tag @ '')'')"

definition ResolutionFailed :: "Descriptor \<Rightarrow> error" where
  "ResolutionFailed descriptor =
     UsageError (''Failed to successfully resolve '' @ quote @ drange descriptor @ quote
       @ '' to a valid '' @ dname descriptor @ '' release'')"

definition ProjectPackageManagerMismatch :: "string \<Rightarrow> string \<Rightarrow> error" where
  "ProjectPackageManagerMismatch n target =
     UsageError (''This project is configured to use '' @ n @ '' because '' @ target
       @ '' has a '' @ dquote @ ''packageManager'' @ dquote @ '' field'')"

definition AssertionFailure :: "string option \<Rightarrow> string list \<Rightarrow> error" where
  "AssertionFailure ref rangeKeys =
     Error (''Assertion failed: Specified resolution ('' @ template ref
       @ '') isn'' @ quote @ ''t supported by any of '' @ join '', '' rangeKeys)"

subsection \<open>Range-spec lookup and installation\<close>

text \<open>
  Engine.ts, lines 107 to 134. An object has each key once, so going through its keys and
  indexing it by the key is going through its entries.
\<close>

definition getPackageManagerSpecFor :: "'x Engine \<Rightarrow> Locator \<Rightarrow> error + PackageManagerSpec" where
  "getPackageManagerSpecFor E locator =
     (if \<not> isSupportedPackageManagerLocator E locator then
        (let u = template (reference locator) in
         Inr \<lparr>spec_url = u, spec_bin = None,
              spec_registry = \<lparr>registry_type = ''url'', registry_url = u,
                               fields_tags = [], fields_versions = []\<rparr>\<rparr>)
      else case definitions E (lname locator) of
        None \<Rightarrow> Inl (UnsupportedPackageManager (lname locator))
      | Some defn \<Rightarrow>
          (case find (\<lambda>(rangeKey, packageManagerSpec).
                        satisfiesWithPrereleases E (reference locator) rangeKey)
                  (rev (ranges defn)) of
             None \<Rightarrow> Inl (AssertionFailure (reference locator) (rev (map fst (ranges defn))))
           | Some (rangeKey, packageManagerSpec) \<Rightarrow> Inr packageManagerSpec))"

text \<open>Engine.ts, lines 194 to 214.\<close>

definition ensurePackageManager ::
    "'x Engine \<Rightarrow> Locator \<Rightarrow> ('x, PreparedPackageManagerInfo) io" where
  "ensurePackageManager E locator =
     (case getPackageManagerSpecFor E locator of
        Inl e \<Rightarrow> throw e
      | Inr packageManagerSpec \<Rightarrow>
          await (invoke (InstallVersion locator packageManagerSpec)
                   (installVersion E locator packageManagerSpec))
            (\<lambda>packageManagerInfo.
               case reference locator of
                 None \<Rightarrow> throw (TypeError ''Cannot read properties of undefined'')
               | Some ref \<Rightarrow>
                   (let noHashReference = replace_hash ref;
                        fixedHashReference = noHashReference @ ''+'' @ hash packageManagerInfo
                    in return \<lparr>prepared_info = packageManagerInfo,
                               prepared_locator =
                                 \<lparr>lname = lname locator, reference = Some fixedHashReference\<rparr>,
                               prepared_spec = packageManagerSpec\<rparr>)))"

subsection \<open>The descriptor resolver\<close>

text \<open>
  Engine.ts, lines 375 to 381: the function that is mapped over the range keys. It asks
  the registry of one range for its versions and keeps those that satisfy the working
  range.
\<close>

definition matchingVersions ::
    "'x Engine \<Rightarrow> Descriptor \<Rightarrow> string \<times> PackageManagerSpec \<Rightarrow> ('x, string list) io" where
  "matchingVersions E finalDescriptor entry =
     (case entry of (rangeKey, packageManagerSpec) \<Rightarrow>
        (let registry = getRegistryFromPackageManagerSpec E packageManagerSpec
         in await (request (FetchAvailableVersions registry) (fetchAvailableVersions E registry))
              (\<lambda>versions. return (filter (\<lambda>version.
                   satisfiesWithPrereleases E (Some version) (drange finalDescriptor))
                 versions))))"

text \<open>
  Engine.ts, lines 342 to 362: the working descriptor, \<^verbatim>\<open>finalDescriptor\<close>. A range that is
  neither a version nor a range expression is a tag, looked up in the registry of the last
  range declared. With no range declared \<^verbatim>\<open>ranges[ranges.length - 1]\<close> is \<^verbatim>\<open>undefined\<close> and
  so is the spec read under it, which the registry helper then reads a property of.
\<close>

definition finalDescriptorOf ::
    "'x Engine \<Rightarrow> Definition \<Rightarrow> Descriptor \<Rightarrow> bool \<Rightarrow> ('x, Descriptor) io" where
  "finalDescriptorOf E defn descriptor allowTags =
     (if \<not> semverValid E (drange descriptor) \<and> \<not> semverValidRange E (drange descriptor) then
        (if \<not> allowTags then throw TagsNotAllowed
         else if ranges defn = [] then throw (TypeError ''Cannot read properties of undefined'')
         else
           (let packageManagerSpec = snd (last (ranges defn));
                registry = getRegistryFromPackageManagerSpec E packageManagerSpec
            in await (request (FetchAvailableTags registry) (fetchAvailableTags E registry))
                 (\<lambda>tags. case tags (drange descriptor) of
                      None \<Rightarrow> throw (TagNotFound (drange descriptor))
                    | Some v \<Rightarrow> return \<lparr>dname = dname descriptor, drange = v\<rparr>)))
      else return descriptor)"

text \<open>Engine.ts, lines 364 to 387: the resolution of the working descriptor.\<close>

definition resolveFinalDescriptor ::
    "'x Engine \<Rightarrow> Definition \<Rightarrow> Descriptor \<Rightarrow> bool \<Rightarrow> ('x, Locator option) io" where
  "resolveFinalDescriptor E defn finalDescriptor useCache =
     await (invoke (FindInstalledVersion finalDescriptor)
              (findInstalledVersion E finalDescriptor))
       (\<lambda>cachedVersion.
          if cachedVersion \<noteq> None \<and> useCache then
            return (Some \<lparr>lname = dname finalDescriptor, reference = cachedVersion\<rparr>)
          else if semverValid E (drange finalDescriptor) then
            return (Some \<lparr>lname = dname finalDescriptor,
                          reference = Some (drange finalDescriptor)\<rparr>)
          else
            await (Promise_all (map (matchingVersions E finalDescriptor) (ranges defn)))
              (\<lambda>versions.
                 (let highestVersion = sort_by (semverRcompare E) (dedup (concat versions))
                  in if highestVersion = [] then return None
                     else return (Some \<lparr>lname = dname finalDescriptor,
                                        reference = Some (hd highestVersion)\<rparr>))))"

text \<open>Engine.ts, lines 327 to 388.\<close>

definition resolveDescriptor ::
    "'x Engine \<Rightarrow> Descriptor \<Rightarrow> bool \<Rightarrow> bool \<Rightarrow> ('x, Locator option) io" where
  "resolveDescriptor E descriptor allowTags useCache =
     (if \<not> isSupportedPackageManagerDescriptor E descriptor then
        (if process_env E ''COREPACK_ENABLE_UNSAFE_CUSTOM_URLS'' \<noteq> Some ''1''
              \<and> isSupportedPackageManager E (dname descriptor)
         then throw (IllegalCustomURL descriptor)
         else return (Some \<lparr>lname = dname descriptor, reference = Some (drange descriptor)\<rparr>))
      else case definitions E (dname descriptor) of
        None \<Rightarrow> throw (UnsupportedPackageManager (dname descriptor))
      | Some defn \<Rightarrow>
          await (finalDescriptorOf E defn descriptor allowTags)
            (\<lambda>finalDescriptor. resolveFinalDescriptor E defn finalDescriptor useCache))"

subsection \<open>The default version\<close>

text \<open>
  Engine.ts, lines 161 to 187. \<^verbatim>\<open>if (lastKnownGoodForThisPackageManager)\<close> is a test of
  truthiness: it fails for \<^verbatim>\<open>undefined\<close> and for the empty string.
\<close>

definition getDefaultVersion :: "'x Engine \<Rightarrow> string \<Rightarrow> ('x, string) io" where
  "getDefaultVersion E packageManager =
     (case definitions E packageManager of
        None \<Rightarrow> throw (UnsupportedPackageManager packageManager)
      | Some defn \<Rightarrow>
          await getLastKnownGood
            (\<lambda>lastKnownGood.
               (let lastKnownGoodForThisPackageManager =
                      getLastKnownGoodFromFileContent lastKnownGood packageManager
                in if truthy lastKnownGoodForThisPackageManager then
                     return (the lastKnownGoodForThisPackageManager)
                   else if process_env E ''COREPACK_DEFAULT_TO_LATEST'' = Some ''0'' then
                     return (defaultVersion defn)
                   else
                     await (request (FetchLatestStableVersion (fetchLatestFrom defn))
                              (fetchLatestStableVersion E (fetchLatestFrom defn)))
                       (\<lambda>ref.
                          await (try_catch
                                   (activatePackageManager lastKnownGood
                                      \<lparr>lname = packageManager, reference = Some ref\<rparr>)
                                   (\<lambda>_. return ()))
                            (\<lambda>_. return ref)))))"

subsection \<open>The project spec locator\<close>

text \<open>Engine.ts, line 234.\<close>

definition fallbackDescriptor :: "Locator \<Rightarrow> Descriptor" where
  "fallbackDescriptor locator =
     \<lparr>dname = lname locator, drange = template (reference locator)\<rparr>"

text \<open>
  Engine.ts, lines 232 to 280. Every branch of the \<^verbatim>\<open>switch\<close> inside \<^verbatim>\<open>while (true)\<close> returns
  or throws, so the body runs once. The lines written to the console are not modelled.
\<close>

definition findProjectSpec ::
    "'x Engine \<Rightarrow> string \<Rightarrow> Locator \<Rightarrow> bool \<Rightarrow> ('x, Descriptor) io" where
  "findProjectSpec E initialCwd locator transparent =
     (if process_env E ''COREPACK_ENABLE_PROJECT_SPEC'' = Some ''0'' then
        return (fallbackDescriptor locator)
      else
        (let transparent' =
               (if process_env E ''COREPACK_ENABLE_STRICT'' = Some ''0'' then True
                else transparent)
         in await (invoke (LoadSpec initialCwd) (loadSpec E initialCwd))
              (\<lambda>result. case result of
                   NoProject \<Rightarrow> return (fallbackDescriptor locator)
                 | NoSpec target \<Rightarrow>
                     if process_env E ''COREPACK_ENABLE_AUTO_PIN'' \<noteq> Some ''0'' then
                       await (resolveDescriptor E (fallbackDescriptor locator) True True)
                         (\<lambda>resolved. case resolved of
                              None \<Rightarrow> throw (ResolutionFailed (fallbackDescriptor locator))
                            | Some r \<Rightarrow>
                                await (ensurePackageManager E r)
                                  (\<lambda>installSpec.
                                     await (invoke
                                              (SetLocalPackageManager (path_dirname E target)
                                                 installSpec)
                                              (setLocalPackageManager E (path_dirname E target)
                                                 installSpec))
                                       (\<lambda>_. return (fallbackDescriptor locator))))
                     else return (fallbackDescriptor locator)
                 | Found target projectSpec \<Rightarrow>
                     if dname projectSpec \<noteq> lname locator then
                       (if transparent' then return (fallbackDescriptor locator)
                        else throw (ProjectPackageManagerMismatch (dname projectSpec) target))
                     else return projectSpec)))"

subsection \<open>The request dispatcher\<close>

record PackageManagerRequest =
  packageManager :: "string option"
  binaryName :: string
  binaryVersion :: "string option"






section \<open>An example configuration\<close>

text \<open>
  The theorems below hold for every engine. To run them on an input, the parameters need
  values: this section gives the ones of the example of the specification, a tool \<open>T\<close>
  with the range keys \<^verbatim>\<open>1.x\<close> and \<^verbatim>\<open>>=2.0.0\<close>.

  The functions of \<^verbatim>\<open>semver\<close> are given on a fragment only: a version is
  \<^verbatim>\<open>MAJOR.MINOR.PATCH\<close> with an optional \<^verbatim>\<open>+build\<close>, a range is a version, \<^verbatim>\<open>^version\<close>,
  \<^verbatim>\<open>>=version\<close> or \<^verbatim>\<open>MAJOR.x\<close>. Prerelease tags and the other operators are outside the
  fragment and are answered as invalid.
\<close>

definition digit_value :: "char \<Rightarrow> nat option" where
  "digit_value c = map_of (zip ''0123456789'' [0, 1, 2, 3, 4, 5, 6, 7, 8, 9]) c"

fun digits_value :: "nat \<Rightarrow> string \<Rightarrow> nat option" where
  "digits_value acc [] = Some acc"
| "digits_value acc (c # cs) =
     (case digit_value c of None \<Rightarrow> None | Some d \<Rightarrow> digits_value (10 * acc + d) cs)"

text \<open>A numeric identifier: digits, with no leading zero.\<close>

definition numeric_identifier :: "string \<Rightarrow> nat option" where
  "numeric_identifier s =
     (if s = [] \<or> (hd s = CHR ''0'' \<and> tl s \<noteq> []) then None else digits_value 0 s)"

fun split_on :: "char \<Rightarrow> string \<Rightarrow> string list" where
  "split_on sep [] = [[]]"
| "split_on sep (c # cs) =
     (if c = sep then [] # split_on sep cs
      else (case split_on sep cs of [] \<Rightarrow> [[c]] | p # ps \<Rightarrow> (c # p) # ps))"

type_synonym version = "nat \<times> nat \<times> nat"

definition parse_triple :: "string \<Rightarrow> version option" where
  "parse_triple s =
     (case map numeric_identifier (split_on (CHR ''.'') s) of
        [Some major, Some minor, Some patch] \<Rightarrow> Some (major, minor, patch)
      | _ \<Rightarrow> None)"

text \<open>The build metadata after a \<^verbatim>\<open>+\<close> is dropped: it plays no role in precedence.\<close>

definition parse_version :: "string \<Rightarrow> version option" where
  "parse_version s = parse_triple (takeWhile (\<lambda>c. c \<noteq> CHR ''+'') s)"

fun compare_versions :: "version \<Rightarrow> version \<Rightarrow> int" where
  "compare_versions (a1, a2, a3) (b1, b2, b3) =
     (if a1 < b1 then -1 else if b1 < a1 then 1
      else if a2 < b2 then -1 else if b2 < a2 then 1
      else if a3 < b3 then -1 else if b3 < a3 then 1 else 0)"

text \<open>A range of the fragment: its lower bound, and its upper bound if it has one.\<close>

definition caret_upper :: "version \<Rightarrow> version" where
  "caret_upper v =
     (case v of (major, minor, patch) \<Rightarrow>
        if 0 < major then (major + 1, 0, 0)
        else if 0 < minor then (0, minor + 1, 0)
        else (0, 0, patch + 1))"

definition parse_range :: "string \<Rightarrow> (version \<times> version option) option" where
  "parse_range s =
     (if take 1 s = ''^'' then
        map_option (\<lambda>v. (v, Some (caret_upper v))) (parse_version (drop 1 s))
      else if take 2 s = ''>='' then
        map_option (\<lambda>v. (v, None)) (parse_version (drop 2 s))
      else if 2 \<le> length s \<and> drop (length s - 2) s = ''.x'' then
        map_option (\<lambda>major. ((major, 0, 0), Some (major + 1, 0, 0)))
          (numeric_identifier (take (length s - 2) s))
      else
        map_option (\<lambda>v. case v of (major, minor, patch) \<Rightarrow> (v, Some (major, minor, patch + 1)))
          (parse_version s))"

definition fragment_valid :: "string \<Rightarrow> bool" where
  "fragment_valid s = (parse_version s \<noteq> None)"

definition fragment_validRange :: "string \<Rightarrow> bool" where
  "fragment_validRange s = (parse_range s \<noteq> None)"

definition fragment_rcompare :: "string \<Rightarrow> string \<Rightarrow> int" where
  "fragment_rcompare a b =
     (case (parse_version a, parse_version b) of
        (Some x, Some y) \<Rightarrow> compare_versions y x
      | _ \<Rightarrow> 0)"

definition fragment_satisfies :: "string option \<Rightarrow> string \<Rightarrow> bool" where
  "fragment_satisfies v r =
     (case (Option.bind v parse_version, parse_range r) of
        (Some x, Some (lower, upper)) \<Rightarrow>
          0 \<le> compare_versions x lower
            \<and> (case upper of None \<Rightarrow> True | Some u \<Rightarrow> compare_versions x u < 0)
      | _ \<Rightarrow> False)"

definition registryA :: RegistrySpec where
  "registryA = \<lparr>registry_type = ''url'', registry_url = ''https://registry.example/legacy'',
                fields_tags = ''dist-tags'', fields_versions = ''versions''\<rparr>"

definition registryB :: RegistrySpec where
  "registryB = \<lparr>registry_type = ''url'', registry_url = ''https://registry.example/current'',
                fields_tags = ''dist-tags'', fields_versions = ''versions''\<rparr>"

definition specA :: PackageManagerSpec where
  "specA = \<lparr>spec_url = ''https://registry.example/legacy/{}.tgz'', spec_bin = Some [''T''],
            spec_registry = registryA\<rparr>"

definition specB :: PackageManagerSpec where
  "specB = \<lparr>spec_url = ''https://registry.example/current/{}.tgz'', spec_bin = Some [''T''],
            spec_registry = registryB\<rparr>"

definition definitionT :: Definition where
  "definitionT = \<lparr>ranges = [(''1.x'', specA), (''>=2.0.0'', specB)],
                  defaultVersion = ''1.22.19'', fetchLatestFrom = registryB,
                  transparent_default = None, transparent_commands = [[''T'', ''exec'']]\<rparr>"

definition unreachable :: NodeError where
  "unreachable = NodeError (Some ''ENOTFOUND'') ''getaddrinfo ENOTFOUND''"

text \<open>The path up to its last slash.\<close>

definition parentFolder :: "string \<Rightarrow> string" where
  "parentFolder p = rev (drop 1 (dropWhile (\<lambda>c. c \<noteq> CHR ''/'') (rev p)))"

text \<open>
  The example engine: no variable of the environment is set, a range that starts with
  \<^verbatim>\<open>https://\<close> is a URL, the install cache is empty, there is no project, and the two
  registries answer as the specification's example says.
\<close>

definition exampleEngine :: "unit Engine" where
  "exampleEngine =
     \<lparr>definitions = [''T'' \<mapsto> definitionT],
      process_env = Map.empty,
      isSupportedPackageManager = (\<lambda>n. n = ''T''),
      isSupportedPackageManagerDescriptor = (\<lambda>d. take 8 (drange d) \<noteq> ''https://''),
      isSupportedPackageManagerLocator = (\<lambda>l. take 8 (template (reference l)) \<noteq> ''https://''),
      getRegistryFromPackageManagerSpec = spec_registry,
      semverValid = fragment_valid,
      semverValidRange = fragment_validRange,
      semverRcompare = fragment_rcompare,
      satisfiesWithPrereleases = fragment_satisfies,
      fetchAvailableTags =
        (\<lambda>r. if r = registryB then Inr [''latest'' \<mapsto> ''2.0.0''] else Inl unreachable),
      fetchAvailableVersions =
        (\<lambda>r. if r = registryA then Inr [''1.21.0'', ''1.22.19'']
              else if r = registryB then Inr [''2.0.0'']
              else Inl unreachable),
      fetchLatestStableVersion =
        (\<lambda>r. if r = registryB then Inr ''2.0.0'' else Inl unreachable),
      findInstalledVersion = (\<lambda>d w. (Inr None, w)),
      installVersion = (\<lambda>l s w. (Inr \<lparr>hash = ''sha1.0a'', location = ''/cache''\<rparr>, w)),
      loadSpec = (\<lambda>cwd w. (Inr NoProject, w)),
      setLocalPackageManager = (\<lambda>target i w. (Inr (), w)),
      runVersion = (\<lambda>l i b args w. (Inr (), w)),
      path_dirname = parentFolder\<rparr>"

text \<open>A world with no Last-Known-Good file, in which the home folder can be written.\<close>

definition noFile :: NodeError where
  "noFile = NodeError (Some ''ENOENT'') ''no such file or directory''"

definition freshWorld :: "unit world" where
  "freshWorld = \<lparr>lkgFile = Inl noFile, mkdirError = None, writeError = None, ext = ()\<rparr>"

text \<open>
  The example of the specification for the project spec locator: the project file pins
  \<^verbatim>\<open>pnpm@8.6.0\<close>.
\<close>

definition pinnedEngine :: "unit Engine" where
  "pinnedEngine = exampleEngine
     \<lparr>loadSpec := (\<lambda>cwd w.
        (Inr (Found ''/project/package.json'' \<lparr>dname = ''pnpm'', drange = ''8.6.0''\<rparr>), w))\<rparr>"

text \<open>
  The example engine with an install cache that holds version \<^verbatim>\<open>1.22.19\<close> of \<open>T\<close>:
  the lookup answers it to every range it satisfies.
\<close>

definition cachedEngine :: "unit Engine" where
  "cachedEngine = exampleEngine
     \<lparr>findInstalledVersion := (\<lambda>d w.
        (Inr (if dname d = ''T'' \<and> fragment_satisfies (Some ''1.22.19'') (drange d)
              then Some ''1.22.19'' else None), w))\<rparr>"

text \<open>Worlds and engines for the examples of the Last-Known-Good store.\<close>

definition worldWith :: "content \<Rightarrow> unit world" where
  "worldWith c = freshWorld\<lparr>lkgFile := Inr c\<rparr>"

definition accessDenied :: NodeError where
  "accessDenied = NodeError (Some ''EACCES'') ''permission denied''"

definition mixedFile :: content where
  "mixedFile = Json (JObject [''T'' \<mapsto> JString ''1.22.19'', ''npm'' \<mapsto> JNumber 7])"

definition arrayWorld :: "unit world" where
  "arrayWorld = worldWith (Json (JArray []))"

definition arrayFile :: content where
  "arrayFile = Json (JArray [JString ''1.22.19'', JNumber 7])"

definition emptyEntryFile :: content where
  "emptyEntryFile = Json (JObject [''T'' \<mapsto> JString []])"

definition pinnedFile :: content where
  "pinnedFile = Json (JObject [''T'' \<mapsto> JString ''1.21.0''])"

text \<open>The example engine with \<^verbatim>\<open>COREPACK_DEFAULT_TO_LATEST=0\<close>.\<close>

definition staticEngine :: "unit Engine" where
  "staticEngine = exampleEngine\<lparr>process_env := [''COREPACK_DEFAULT_TO_LATEST'' \<mapsto> ''0'']\<rparr>"

text \<open>
  A project that declares no pin, the same project when its file cannot be written, and
  a home folder that cannot be written.
\<close>

definition projectWithoutPin :: "unit Engine" where
  "projectWithoutPin = exampleEngine
     \<lparr>loadSpec := (\<lambda>cwd w. (Inr (NoSpec ''/project/package.json''), w))\<rparr>"

definition readOnlyProject :: "unit Engine" where
  "readOnlyProject = projectWithoutPin
     \<lparr>setLocalPackageManager := (\<lambda>target i w. (Inl accessDenied, w))\<rparr>"

definition readOnlyHome :: "unit world" where
  "readOnlyHome = freshWorld\<lparr>writeError := Some accessDenied\<rparr>"

section \<open>What the theorems speak of\<close>

text \<open>
  A comparator is consistent on a set when, on it, \<open>cmp a b \<le> 0\<close> is a total and
  transitive relation: what \<^verbatim>\<open>semver\<close>'s \<^verbatim>\<open>rcompare\<close> is on valid versions.
\<close>

definition consistent_on :: "('a \<Rightarrow> 'a \<Rightarrow> int) \<Rightarrow> 'a set \<Rightarrow> bool" where
  "consistent_on cmp S =
     ((\<forall>a\<in>S. \<forall>b\<in>S. cmp a b \<le> 0 \<or> cmp b a \<le> 0)
      \<and> (\<forall>a\<in>S. \<forall>b\<in>S. \<forall>c\<in>S. cmp a b \<le> 0 \<and> cmp b c \<le> 0 \<longrightarrow> cmp a c \<le> 0))"

section \<open>Basic facts\<close>

lemmas fragment_defs =
  digit_value_def fragment_valid_def fragment_validRange_def fragment_rcompare_def fragment_satisfies_def
  parse_version_def parse_range_def parse_triple_def numeric_identifier_def caret_upper_def

lemmas example_defs =
  exampleEngine_def definitionT_def specA_def specB_def registryA_def registryB_def

lemmas engine_defs =
  resolveDescriptor_def finalDescriptorOf_def resolveFinalDescriptor_def
  ensurePackageManager_def getPackageManagerSpecFor_def replace_hash_def
  await_def invoke_def request_def return_def throw_def

lemma return_apply: "return v s = (Inr v, s)"
  by (simp add: return_def)

lemma throw_apply: "throw e s = (Inl e, s)"
  by (simp add: throw_def)

lemma set_dedup_fold:
  "set (fold (\<lambda>x seen. if x \<in> set seen then seen else seen @ [x]) xs acc) = set xs \<union> set acc"
  by (induction xs arbitrary: acc) auto

lemma distinct_dedup_fold:
  "distinct acc \<Longrightarrow> distinct (fold (\<lambda>x seen. if x \<in> set seen then seen else seen @ [x]) xs acc)"
  by (induction xs arbitrary: acc) auto

lemma set_dedup: "set (dedup xs) = set xs"
  by (simp add: dedup_def set_dedup_fold)

lemma distinct_dedup: "distinct (dedup xs)"
  by (simp add: dedup_def distinct_dedup_fold)

lemma set_insert_by: "set (insert_by cmp x ys) = insert x (set ys)"
  by (induction ys) auto

lemma set_sort_by: "set (sort_by cmp xs) = set xs"
  by (induction xs) (auto simp: sort_by_def set_insert_by)



lemma sort_by_Nil_iff: "sort_by cmp xs = [] \<longleftrightarrow> xs = []"
proof -
  have "set (sort_by cmp xs) = {} \<longleftrightarrow> set xs = {}" by (simp add: set_sort_by)
  then show ?thesis by (simp only: set_empty)
qed

lemma consistent_on_total: "consistent_on cmp S \<Longrightarrow> a \<in> S \<Longrightarrow> b \<in> S \<Longrightarrow> \<not> cmp a b \<le> 0 \<Longrightarrow> cmp b a \<le> 0"
  unfolding consistent_on_def by blast

lemma consistent_on_trans: "consistent_on cmp S \<Longrightarrow> a \<in> S \<Longrightarrow> b \<in> S \<Longrightarrow> c \<in> S \<Longrightarrow> cmp a b \<le> 0 \<Longrightarrow> cmp b c \<le> 0 \<Longrightarrow> cmp a c \<le> 0"
  unfolding consistent_on_def by blast

lemma consistent_on_subset: "consistent_on cmp S \<Longrightarrow> T \<subseteq> S \<Longrightarrow> consistent_on cmp T"
  unfolding consistent_on_def by blast

lemma sorted_insert_by:
  assumes "consistent_on cmp (insert x (set ys))" and "sorted_wrt (\<lambda>a b. cmp a b \<le> 0) ys"
  shows "sorted_wrt (\<lambda>a b. cmp a b \<le> 0) (insert_by cmp x ys)"
  using assms
proof (induction ys)
  case Nil
  then show ?case by simp
next
  case (Cons y ys)
  let ?S = "insert x (set (y # ys))"
  have sub: "consistent_on cmp (insert x (set ys))"
    by (rule consistent_on_subset [OF Cons.prems(1)]) auto
  show ?case
  proof (cases "cmp x y \<le> 0")
    case True
    have "cmp x z \<le> 0" if z: "z \<in> set ys" for z
    proof -
      have "cmp y z \<le> 0" using Cons.prems(2) z by simp
      then show ?thesis
        using consistent_on_trans [OF Cons.prems(1), of x y z] True z by simp
    qed
    with True Cons.prems(2) show ?thesis by simp
  next
    case False
    have yx: "cmp y x \<le> 0"
      using consistent_on_total [OF Cons.prems(1), of x y] False by simp
    have "sorted_wrt (\<lambda>a b. cmp a b \<le> 0) (insert_by cmp x ys)"
      using Cons.IH [OF sub] Cons.prems(2) by simp
    with False yx Cons.prems(2) show ?thesis
      by (auto simp: set_insert_by)
  qed
qed

lemma sorted_sort_by:
  "consistent_on cmp (set xs) \<Longrightarrow> sorted_wrt (\<lambda>a b. cmp a b \<le> 0) (sort_by cmp xs)"
proof (induction xs)
  case Nil
  then show ?case by (simp add: sort_by_def)
next
  case (Cons x xs)
  have sub: "consistent_on cmp (set xs)"
    by (rule consistent_on_subset [OF Cons.prems]) auto
  have "sorted_wrt (\<lambda>a b. cmp a b \<le> 0) (insert_by cmp x (sort_by cmp xs))"
  proof (rule sorted_insert_by)
    show "consistent_on cmp (insert x (set (sort_by cmp xs)))"
      using Cons.prems by (simp add: set_sort_by)
    show "sorted_wrt (\<lambda>a b. cmp a b \<le> 0) (sort_by cmp xs)"
      by (rule Cons.IH [OF sub])
  qed
  then show ?case by (simp add: sort_by_def)
qed

lemma hd_sort_by_highest:
  assumes "consistent_on cmp (set xs)" and "v \<in> set xs"
  shows "cmp (hd (sort_by cmp xs)) v \<le> 0"
proof -
  have v: "v \<in> set (sort_by cmp xs)" using assms(2) by (simp add: set_sort_by)
  then obtain h rest where ys: "sort_by cmp xs = h # rest" by (cases "sort_by cmp xs") auto
  have sorted: "sorted_wrt (\<lambda>a b. cmp a b \<le> 0) (h # rest)"
    using sorted_sort_by [OF assms(1)] ys by simp
  have "h \<in> set (sort_by cmp xs)" using ys by simp
  then have hin: "h \<in> set xs" by (simp add: set_sort_by)
  have refl: "cmp h h \<le> 0"
    using consistent_on_total [OF assms(1) hin hin] by blast
  show ?thesis
  proof (cases "v = h")
    case True
    with refl ys show ?thesis by simp
  next
    case False
    with v ys have "v \<in> set rest" by simp
    with sorted ys show ?thesis by simp
  qed
qed


section \<open>Custom tools\<close>




section \<open>A project that declares a pin\<close>

text \<open>
  Claim C5. When project-spec lookup is not disabled and the loader answers \<open>Found\<close>:
  if the pin names another tool than the fallback locator, \<^verbatim>\<open>findProjectSpec\<close> returns the
  fallback descriptor in transparent mode (the caller asked for it, or
  \<^verbatim>\<open>COREPACK_ENABLE_STRICT\<close> is \<^verbatim>\<open>0\<close>) and otherwise fails with
  \<open>ProjectPackageManagerMismatch\<close>, whose message names the pinned tool and the project
  file; if the names agree it returns the project's descriptor as it is. The only call
  made is the one to the loader.
\<close>

theorem findProjectSpec_found:
  assumes "process_env E ''COREPACK_ENABLE_PROJECT_SPEC'' \<noteq> Some ''0''"
      and "loadSpec E cwd w = (Inr (Found target projectSpec), w')"
  shows "findProjectSpec E cwd loc transparent (w, t) =
     ((if dname projectSpec \<noteq> lname loc then
         (if transparent \<or> process_env E ''COREPACK_ENABLE_STRICT'' = Some ''0''
          then Inr (fallbackDescriptor loc)
          else Inl (ProjectPackageManagerMismatch (dname projectSpec) target))
       else Inr projectSpec),
      (w', t @ [LoadSpec cwd]))"
  using assms
  by (simp add: findProjectSpec_def await_def invoke_def throw_apply return_apply)

theorem findProjectSpec_found_witness:
  "findProjectSpec pinnedEngine ''/project/src'' \<lparr>lname = ''yarn'', reference = Some ''1.22.19''\<rparr>
       False (freshWorld, [])
     = (Inl (ProjectPackageManagerMismatch ''pnpm'' ''/project/package.json''),
        (freshWorld, [LoadSpec ''/project/src'']))
   \<and> findProjectSpec pinnedEngine ''/project/src'' \<lparr>lname = ''yarn'', reference = Some ''1.22.19''\<rparr>
       True (freshWorld, [])
     = (Inr \<lparr>dname = ''yarn'', drange = ''1.22.19''\<rparr>, (freshWorld, [LoadSpec ''/project/src'']))
   \<and> findProjectSpec pinnedEngine ''/project/src'' \<lparr>lname = ''pnpm'', reference = Some ''9.0.0''\<rparr>
       False (freshWorld, [])
     = (Inr \<lparr>dname = ''pnpm'', drange = ''8.6.0''\<rparr>, (freshWorld, [LoadSpec ''/project/src'']))"
proof -
  have env: "process_env pinnedEngine ''COREPACK_ENABLE_PROJECT_SPEC'' \<noteq> Some ''0''"
    by (simp add: pinnedEngine_def exampleEngine_def)
  have found: "loadSpec pinnedEngine ''/project/src'' freshWorld
      = (Inr (Found ''/project/package.json'' \<lparr>dname = ''pnpm'', drange = ''8.6.0''\<rparr>), freshWorld)"
    by (simp add: pinnedEngine_def)
  have strict: "process_env pinnedEngine ''COREPACK_ENABLE_STRICT'' \<noteq> Some ''0''"
    by (simp add: pinnedEngine_def exampleEngine_def)
  show ?thesis
    using findProjectSpec_found
            [OF env found, of "\<lparr>lname = ''yarn'', reference = Some ''1.22.19''\<rparr>" False "[]"]
          findProjectSpec_found
            [OF env found, of "\<lparr>lname = ''yarn'', reference = Some ''1.22.19''\<rparr>" True "[]"]
          findProjectSpec_found
            [OF env found, of "\<lparr>lname = ''pnpm'', reference = Some ''9.0.0''\<rparr>" False "[]"]
          strict
    by (simp add: fallbackDescriptor_def)
qed

section \<open>Facts about the resolver\<close>

lemma await_return: "await (return v) k = k v"
  by (simp add: await_def return_def)

lemma Promise_all_Cons_state: "snd (Promise_all (m # ms) s) = snd (Promise_all ms (snd (m s)))"
  by (simp split: prod.splits sum.splits)

lemma Promise_all_Cons_result:
  "fst (Promise_all (m # ms) s) =
     (case fst (m s) of
        Inl e \<Rightarrow> Inl e
      | Inr v \<Rightarrow> (case fst (Promise_all ms (snd (m s))) of
                    Inl e' \<Rightarrow> Inl e'
                  | Inr vs \<Rightarrow> Inr (v # vs)))"
  by (simp split: prod.splits sum.splits)

lemma matchingVersions_apply:
  "matchingVersions E fd (k, sp) (w, t) =
     ((case fetchAvailableVersions E (getRegistryFromPackageManagerSpec E sp) of
         Inl e \<Rightarrow> Inl (Rejected e)
       | Inr versions \<Rightarrow>
           Inr (filter (\<lambda>version. satisfiesWithPrereleases E (Some version) (drange fd)) versions)),
      (w, t @ [FetchAvailableVersions (getRegistryFromPackageManagerSpec E sp)]))"
  by (simp add: matchingVersions_def await_def request_def return_def split: sum.splits)

lemma Promise_all_matching_state:
  "snd (Promise_all (map (matchingVersions E fd) rs) (w, t)) =
     (w, t @ map (\<lambda>(k, sp). FetchAvailableVersions (getRegistryFromPackageManagerSpec E sp)) rs)"
proof (induction rs arbitrary: t)
  case Nil
  then show ?case by (simp add: return_def)
next
  case (Cons r rs)
  obtain k sp where r: "r = (k, sp)" by (cases r)
  show ?case
    unfolding list.map Promise_all_Cons_state r matchingVersions_apply snd_conv Cons.IH
    by simp
qed

lemma Promise_all_matching_result:
  assumes "map (\<lambda>(k, sp). fetchAvailableVersions E (getRegistryFromPackageManagerSpec E sp)) rs
             = map Inr answers"
  shows "fst (Promise_all (map (matchingVersions E fd) rs) (w, t)) =
     Inr (map (filter (\<lambda>version. satisfiesWithPrereleases E (Some version) (drange fd))) answers)"
  using assms
proof (induction rs arbitrary: t answers)
  case Nil
  then show ?case by (simp add: return_def)
next
  case (Cons r rs)
  obtain k sp where r: "r = (k, sp)" by (cases r)
  from Cons.prems obtain l ls where answers: "answers = l # ls"
    and hd: "fetchAvailableVersions E (getRegistryFromPackageManagerSpec E sp) = Inr l"
    and tl: "map (\<lambda>(k, sp). fetchAvailableVersions E (getRegistryFromPackageManagerSpec E sp)) rs
               = map Inr ls"
    by (cases answers) (auto simp: r)
  show ?case
    unfolding list.map Promise_all_Cons_result r matchingVersions_apply snd_conv fst_conv
      Cons.IH [OF tl] answers
    by (simp add: hd)
qed

lemma Promise_all_matching_error:
  "fst (Promise_all (map (matchingVersions E fd) rs) (w, t)) = Inl e \<Longrightarrow> \<exists>n. e = Rejected n"
proof (induction rs arbitrary: t)
  case Nil
  then show ?case by (simp add: return_def)
next
  case (Cons r rs)
  obtain k sp where r: "r = (k, sp)" by (cases r)
  let ?t = "t @ [FetchAvailableVersions (getRegistryFromPackageManagerSpec E sp)]"
  from Cons.prems have *:
    "(case (case fetchAvailableVersions E (getRegistryFromPackageManagerSpec E sp) of
         Inl e \<Rightarrow> Inl (Rejected e)
       | Inr versions \<Rightarrow>
           Inr (filter (\<lambda>version. satisfiesWithPrereleases E (Some version) (drange fd)) versions)) of
        Inl e \<Rightarrow> Inl e
      | Inr v \<Rightarrow> (case fst (Promise_all (map (matchingVersions E fd) rs) (w, ?t)) of
                    Inl e' \<Rightarrow> Inl e'
                  | Inr vs \<Rightarrow> Inr (v # vs))) = Inl e"
    unfolding list.map Promise_all_Cons_result r matchingVersions_apply snd_conv fst_conv .
  then show ?case
    using Cons.IH [of ?t] by (auto split: sum.splits)
qed

lemma finalDescriptorOf_valid:
  "semverValid E (drange d) \<or> semverValidRange E (drange d) \<Longrightarrow>
     finalDescriptorOf E defn d allowTags = return d"
  by (auto simp: finalDescriptorOf_def)

lemma resolveDescriptor_supported:
  "isSupportedPackageManagerDescriptor E d \<Longrightarrow> definitions E (dname d) = Some defn \<Longrightarrow>
     resolveDescriptor E d allowTags useCache =
       await (finalDescriptorOf E defn d allowTags)
         (\<lambda>finalDescriptor. resolveFinalDescriptor E defn finalDescriptor useCache)"
  by (simp add: resolveDescriptor_def)

lemma resolveFinalDescriptor_exact:
  assumes "semverValid E (drange fd)"
  shows "resolveFinalDescriptor E defn fd useCache (w, t) =
     (case findInstalledVersion E fd w of
        (Inl e, w') \<Rightarrow> (Inl (Rejected e), (w', t @ [FindInstalledVersion fd]))
      | (Inr cached, w') \<Rightarrow>
          (Inr (Some \<lparr>lname = dname fd,
                      reference = (if cached \<noteq> None \<and> useCache then cached
                                   else Some (drange fd))\<rparr>),
           (w', t @ [FindInstalledVersion fd])))"
  using assms
  by (simp add: resolveFinalDescriptor_def await_def invoke_def return_def
      split: prod.splits sum.splits)

lemma resolveFinalDescriptor_range:
  assumes "\<not> semverValid E (drange fd)"
      and "findInstalledVersion E fd w = (Inr cached, w')"
      and "cached = None \<or> \<not> useCache"
      and "map (\<lambda>(k, sp). fetchAvailableVersions E (getRegistryFromPackageManagerSpec E sp))
             (ranges defn) = map Inr answers"
  shows "resolveFinalDescriptor E defn fd useCache (w, t) =
     ((let highestVersion = sort_by (semverRcompare E) (dedup (concat (map (filter
             (\<lambda>version. satisfiesWithPrereleases E (Some version) (drange fd))) answers)))
       in if highestVersion = [] then Inr None
          else Inr (Some \<lparr>lname = dname fd, reference = Some (hd highestVersion)\<rparr>)),
      (w', t @ FindInstalledVersion fd
             # map (\<lambda>(k, sp). FetchAvailableVersions (getRegistryFromPackageManagerSpec E sp))
                 (ranges defn)))"
proof -
  let ?s = "(w', t @ [FindInstalledVersion fd])"
  let ?all = "Promise_all (map (matchingVersions E fd) (ranges defn)) ?s"
  have inv: "invoke (FindInstalledVersion fd) (findInstalledVersion E fd) (w, t) = (Inr cached, ?s)"
    by (simp add: invoke_def assms(2))
  have all: "?all =
      (Inr (map (filter (\<lambda>version. satisfiesWithPrereleases E (Some version) (drange fd))) answers),
       (w', (t @ [FindInstalledVersion fd])
              @ map (\<lambda>(k, sp). FetchAvailableVersions (getRegistryFromPackageManagerSpec E sp))
                  (ranges defn)))"
    using Promise_all_matching_result [OF assms(4), of fd w' "t @ [FindInstalledVersion fd]"]
          Promise_all_matching_state [of E fd "ranges defn" w' "t @ [FindInstalledVersion fd]"]
    by (simp add: prod_eq_iff)
  show ?thesis
    using assms(1,3)
    by (auto simp add: resolveFinalDescriptor_def await_def inv all return_def Let_def)
qed

lemma no_tag_request_in_fanout:
  "filter is_tag_request
     (map (\<lambda>(k, sp). FetchAvailableVersions (getRegistryFromPackageManagerSpec E sp)) rs) = []"
  by (induction rs) auto

lemma resolveFinalDescriptor_trace:
  "snd (snd (resolveFinalDescriptor E defn fd useCache (w, t))) = t @ [FindInstalledVersion fd]
   \<or> snd (snd (resolveFinalDescriptor E defn fd useCache (w, t))) =
        t @ FindInstalledVersion fd
          # map (\<lambda>(k, sp). FetchAvailableVersions (getRegistryFromPackageManagerSpec E sp))
              (ranges defn)"
proof -
  obtain r w' where cache: "findInstalledVersion E fd w = (r, w')"
    by (cases "findInstalledVersion E fd w")
  let ?s = "(w', t @ [FindInstalledVersion fd])"
  have st: "snd (Promise_all (map (matchingVersions E fd) (ranges defn)) ?s) =
      (w', (t @ [FindInstalledVersion fd])
             @ map (\<lambda>(k, sp). FetchAvailableVersions (getRegistryFromPackageManagerSpec E sp))
                 (ranges defn))"
    by (rule Promise_all_matching_state)
  show ?thesis
  proof (cases r)
    case (Inl e)
    then show ?thesis
      by (simp add: resolveFinalDescriptor_def await_def invoke_def cache)
  next
    case (Inr cached)
    obtain res s' where all: "Promise_all (map (matchingVersions E fd) (ranges defn)) ?s = (res, s')"
      by (cases "Promise_all (map (matchingVersions E fd) (ranges defn)) ?s")
    with st have s': "s' = (w', t @ FindInstalledVersion fd
             # map (\<lambda>(k, sp). FetchAvailableVersions (getRegistryFromPackageManagerSpec E sp))
                 (ranges defn))"
      by simp
    show ?thesis
      by (cases res)
         (simp_all add: resolveFinalDescriptor_def await_def invoke_def cache Inr all s'
            return_def Let_def)
  qed
qed

lemma resolveFinalDescriptor_no_tag_request:
  "filter is_tag_request (snd (snd (resolveFinalDescriptor E defn fd useCache (w, t))))
     = filter is_tag_request t"
  using resolveFinalDescriptor_trace [of E defn fd useCache w t]
  by (auto simp: no_tag_request_in_fanout)

lemma resolveFinalDescriptor_error:
  "fst (resolveFinalDescriptor E defn fd useCache (w, t)) = Inl e \<Longrightarrow> \<exists>n. e = Rejected n"
proof -
  assume a: "fst (resolveFinalDescriptor E defn fd useCache (w, t)) = Inl e"
  obtain r w' where cache: "findInstalledVersion E fd w = (r, w')"
    by (cases "findInstalledVersion E fd w")
  let ?s = "(w', t @ [FindInstalledVersion fd])"
  obtain res s' where all: "Promise_all (map (matchingVersions E fd) (ranges defn)) ?s = (res, s')"
    by (cases "Promise_all (map (matchingVersions E fd) (ranges defn)) ?s")
  have res: "res = Inl e' \<Longrightarrow> \<exists>n. e' = Rejected n" for e'
    using Promise_all_matching_error [of E fd "ranges defn" w' "t @ [FindInstalledVersion fd]" e'] all
    by simp
  show ?thesis
  proof (cases r)
    case (Inl x)
    with a show ?thesis
      by (auto simp add: resolveFinalDescriptor_def await_def invoke_def cache)
  next
    case (Inr cached)
    with a res show ?thesis
      by (cases res)
         (auto simp add: resolveFinalDescriptor_def await_def invoke_def cache all
            return_def Let_def split: if_splits)
  qed
qed

section \<open>Resolving a range\<close>

text \<open>
  Claim C1. Take a descriptor of a supported tool with a definition, and let \<open>fd\<close> be its
  working descriptor: the descriptor itself when its range is a version or a range
  expression, the descriptor of the tag's version after a tag lookup. Suppose the working
  range is a range expression and not an exact version, the install cache gives no hit
  (it answers \<^verbatim>\<open>null\<close>, or \<^verbatim>\<open>useCache\<close> is off) and every registry answers with its list of
  versions (\<open>answers\<close>, one list per declared range key, in their order). Then
  \<^verbatim>\<open>resolveDescriptor\<close> asks the registry of every declared range key, once each and after
  the cache lookup; \<open>union\<close>, the versions of all answers that satisfy the working range
  under the prerelease-inclusive test, holds each of them once; the result is \<^verbatim>\<open>null\<close>
  when \<open>union\<close> is empty, and otherwise the locator whose reference is the first element
  of \<open>union\<close> sorted by \<^verbatim>\<open>semverRcompare\<close>. That element is a member of \<open>union\<close>, and where
  the comparator is a consistent order on \<open>union\<close> no member has higher precedence.
  The witness is the example of the specification: the range keys \<^verbatim>\<open>1.x\<close> and \<^verbatim>\<open>>=2.0.0\<close>
  reporting \<^verbatim>\<open>[1.21.0, 1.22.19]\<close> and \<^verbatim>\<open>[2.0.0]\<close>, the range \<^verbatim>\<open>^1.0.0\<close> and an empty cache
  give the reference \<^verbatim>\<open>1.22.19\<close>.
\<close>

theorem resolveDescriptor_range:
  assumes "isSupportedPackageManagerDescriptor E d"
      and "definitions E (dname d) = Some defn"
      and "finalDescriptorOf E defn d allowTags s = (Inr fd, (w, t))"
      and "\<not> semverValid E (drange fd)"
      and "semverValidRange E (drange fd)"
      and "findInstalledVersion E fd w = (Inr cached, w')"
      and "cached = None \<or> \<not> useCache"
      and "map (\<lambda>(k, sp). fetchAvailableVersions E (getRegistryFromPackageManagerSpec E sp))
             (ranges defn) = map Inr answers"
  shows "let union = dedup (concat (map (filter
                (\<lambda>version. satisfiesWithPrereleases E (Some version) (drange fd))) answers));
             highest = hd (sort_by (semverRcompare E) union)
         in resolveDescriptor E d allowTags useCache s =
              ((if union = [] then Inr None
                else Inr (Some \<lparr>lname = dname fd, reference = Some highest\<rparr>)),
               (w', t @ FindInstalledVersion fd
                      # map (\<lambda>(k, sp). FetchAvailableVersions
                                          (getRegistryFromPackageManagerSpec E sp))
                          (ranges defn)))
          \<and> distinct union
          \<and> set union = {version \<in> \<Union> (set ` set answers).
                             satisfiesWithPrereleases E (Some version) (drange fd)}
          \<and> (union \<noteq> [] \<longrightarrow> highest \<in> set union)
          \<and> (consistent_on (semverRcompare E) (set union) \<longrightarrow>
                (\<forall>version\<in>set union. semverRcompare E highest version \<le> 0))"
proof -
  let ?union = "dedup (concat (map (filter
                (\<lambda>version. satisfiesWithPrereleases E (Some version) (drange fd))) answers))"
  let ?highest = "hd (sort_by (semverRcompare E) ?union)"
  have run: "resolveDescriptor E d allowTags useCache s =
              ((if ?union = [] then Inr None
                else Inr (Some \<lparr>lname = dname fd, reference = Some ?highest\<rparr>)),
               (w', t @ FindInstalledVersion fd
                      # map (\<lambda>(k, sp). FetchAvailableVersions
                                          (getRegistryFromPackageManagerSpec E sp))
                          (ranges defn)))"
    by (simp add: resolveDescriptor_supported [OF assms(1,2)] await_def assms(3)
        resolveFinalDescriptor_range [OF assms(4,6,7,8)] Let_def sort_by_Nil_iff)
  have members: "set ?union = {version \<in> \<Union> (set ` set answers).
                             satisfiesWithPrereleases E (Some version) (drange fd)}"
    by (auto simp: set_dedup)
  have inside: "?union \<noteq> [] \<Longrightarrow> ?highest \<in> set ?union"
  proof -
    assume "?union \<noteq> []"
    then have "sort_by (semverRcompare E) ?union \<noteq> []" by (simp add: sort_by_Nil_iff)
    then have "?highest \<in> set (sort_by (semverRcompare E) ?union)" by (rule hd_in_set)
    then show ?thesis by (simp only: set_sort_by)
  qed
  have top: "consistent_on (semverRcompare E) (set ?union) \<Longrightarrow>
     \<forall>version\<in>set ?union. semverRcompare E ?highest version \<le> 0"
    using hd_sort_by_highest [of "semverRcompare E" ?union] by blast
  show ?thesis
    unfolding Let_def
  proof (intro conjI impI)
    show "distinct ?union" by (rule distinct_dedup)
  qed (use run members inside top in \<open>blast+\<close>)
qed

theorem resolveDescriptor_range_witness:
  "resolveDescriptor exampleEngine \<lparr>dname = ''T'', drange = ''^1.0.0''\<rparr> False True
       (freshWorld, [])
     = (Inr (Some \<lparr>lname = ''T'', reference = Some ''1.22.19''\<rparr>),
        (freshWorld, [FindInstalledVersion \<lparr>dname = ''T'', drange = ''^1.0.0''\<rparr>,
                      FetchAvailableVersions registryA, FetchAvailableVersions registryB]))
   \<and> semverRcompare exampleEngine ''1.22.19'' ''1.21.0'' \<le> 0
   \<and> semverRcompare exampleEngine ''1.22.19'' ''1.22.19'' \<le> 0"
proof -
  let ?d = "\<lparr>dname = ''T'', drange = ''^1.0.0''\<rparr>"
  let ?cmp = "semverRcompare exampleEngine"
  have sup: "isSupportedPackageManagerDescriptor exampleEngine ?d"
    by (simp add: exampleEngine_def)
  have defn: "definitions exampleEngine (dname ?d) = Some definitionT"
    by (simp add: exampleEngine_def)
  have inexact: "\<not> semverValid exampleEngine (drange ?d)"
    by (simp add: exampleEngine_def fragment_defs)
  have range: "semverValidRange exampleEngine (drange ?d)"
    by (simp add: exampleEngine_def fragment_defs)
  have working: "finalDescriptorOf exampleEngine definitionT ?d False (freshWorld, [])
                   = (Inr ?d, (freshWorld, []))"
    using range by (simp add: finalDescriptorOf_def return_def)
  have miss: "findInstalledVersion exampleEngine ?d freshWorld = (Inr None, freshWorld)"
    by (simp add: exampleEngine_def)
  have nohit: "(None :: string option) = None \<or> \<not> True" by simp
  have answers: "map (\<lambda>(k, sp). fetchAvailableVersions exampleEngine
                       (getRegistryFromPackageManagerSpec exampleEngine sp))
                   (ranges definitionT)
                 = map Inr [[''1.21.0'', ''1.22.19''], [''2.0.0'']]"
    by (simp add: example_defs)
  have union: "dedup (concat (map (filter (\<lambda>version.
                   satisfiesWithPrereleases exampleEngine (Some version) (drange ?d)))
                 [[''1.21.0'', ''1.22.19''], [''2.0.0'']]))
               = [''1.21.0'', ''1.22.19'']"
    by (simp add: exampleEngine_def fragment_defs dedup_def)
  have sorted: "sort_by ?cmp [''1.21.0'', ''1.22.19''] = [''1.22.19'', ''1.21.0'']"
    by (simp add: exampleEngine_def fragment_defs sort_by_def)
  have regs: "map (\<lambda>(k, sp). FetchAvailableVersions
                     (getRegistryFromPackageManagerSpec exampleEngine sp)) (ranges definitionT)
              = [FetchAvailableVersions registryA, FetchAvailableVersions registryB]"
    by (simp add: exampleEngine_def definitionT_def specA_def specB_def)
  have consistent: "consistent_on ?cmp (set [''1.21.0'', ''1.22.19''])"
    by (simp add: consistent_on_def exampleEngine_def fragment_defs)
  show ?thesis
    using resolveDescriptor_range [OF sup defn working inexact range miss nohit answers,
            unfolded Let_def union sorted regs]
          consistent
    by simp
qed

section \<open>Resolving an exact version\<close>

text \<open>
  Claim C2, as amended. Take a descriptor of a supported tool with a definition, whose
  range is a valid exact version. \<^verbatim>\<open>resolveDescriptor\<close> makes one call, the lookup in the
  install cache, and so no request to the network, whatever the lookup answers. When the
  lookup succeeds, the result is a locator of the descriptor's name; its reference is the
  version the cache reported if it reported one and \<^verbatim>\<open>useCache\<close> is on, and the
  descriptor's range unchanged otherwise.
\<close>

theorem resolveDescriptor_exact:
  assumes "isSupportedPackageManagerDescriptor E d"
      and "definitions E (dname d) = Some defn"
      and "semverValid E (drange d)"
  shows "(\<forall>cached w'. findInstalledVersion E d w = (Inr cached, w') \<longrightarrow>
            resolveDescriptor E d allowTags useCache (w, t) =
              (Inr (Some \<lparr>lname = dname d,
                          reference = (if cached \<noteq> None \<and> useCache then cached
                                       else Some (drange d))\<rparr>),
               (w', t @ [FindInstalledVersion d])))
       \<and> snd (snd (resolveDescriptor E d allowTags useCache (w, t))) = t @ [FindInstalledVersion d]
       \<and> filter is_network (snd (snd (resolveDescriptor E d allowTags useCache (w, t))))
           = filter is_network t"
  using assms
  by (simp add: resolveDescriptor_supported finalDescriptorOf_valid await_return
      resolveFinalDescriptor_exact split: prod.splits sum.splits)

text \<open>
  The claim as first stated has the reference equal to the range in every case. With
  version \<^verbatim>\<open>1.22.19\<close> in the cache, the exact version \<^verbatim>\<open>1.22.19+sha1.0a\<close> resolves to the
  cached \<^verbatim>\<open>1.22.19\<close>: the check of the cache at lines 366 to 368 comes before the shortcut
  for exact versions at lines 372 and 373.
\<close>

theorem resolveDescriptor_exact_counterexample:
  "isSupportedPackageManagerDescriptor cachedEngine \<lparr>dname = ''T'', drange = ''1.22.19+sha1.0a''\<rparr>
   \<and> definitions cachedEngine ''T'' = Some definitionT
   \<and> semverValid cachedEngine ''1.22.19+sha1.0a''
   \<and> resolveDescriptor cachedEngine \<lparr>dname = ''T'', drange = ''1.22.19+sha1.0a''\<rparr> False True
        (freshWorld, [])
      = (Inr (Some \<lparr>lname = ''T'', reference = Some ''1.22.19''\<rparr>),
         (freshWorld, [FindInstalledVersion \<lparr>dname = ''T'', drange = ''1.22.19+sha1.0a''\<rparr>]))"
  by (simp add: cachedEngine_def exampleEngine_def fragment_defs
      resolveDescriptor_def finalDescriptorOf_def resolveFinalDescriptor_def
      await_def invoke_def return_def)

theorem resolveDescriptor_exact_witness:
  "resolveDescriptor cachedEngine \<lparr>dname = ''T'', drange = ''1.22.19+sha1.0a''\<rparr> False True
        (freshWorld, [])
      = (Inr (Some \<lparr>lname = ''T'', reference = Some ''1.22.19''\<rparr>),
         (freshWorld, [FindInstalledVersion \<lparr>dname = ''T'', drange = ''1.22.19+sha1.0a''\<rparr>]))
   \<and> resolveDescriptor exampleEngine \<lparr>dname = ''T'', drange = ''1.21.0''\<rparr> False True
        (freshWorld, [])
      = (Inr (Some \<lparr>lname = ''T'', reference = Some ''1.21.0''\<rparr>),
         (freshWorld, [FindInstalledVersion \<lparr>dname = ''T'', drange = ''1.21.0''\<rparr>]))"
proof -
  let ?d = "\<lparr>dname = ''T'', drange = ''1.22.19+sha1.0a''\<rparr>"
  let ?d' = "\<lparr>dname = ''T'', drange = ''1.21.0''\<rparr>"
  have sup: "isSupportedPackageManagerDescriptor cachedEngine ?d"
    by (simp add: cachedEngine_def exampleEngine_def)
  have defn: "definitions cachedEngine (dname ?d) = Some definitionT"
    by (simp add: cachedEngine_def exampleEngine_def)
  have valid: "semverValid cachedEngine (drange ?d)"
    by (simp add: cachedEngine_def exampleEngine_def fragment_defs)
  have hit: "findInstalledVersion cachedEngine ?d freshWorld = (Inr (Some ''1.22.19''), freshWorld)"
    by (simp add: cachedEngine_def fragment_defs)
  have sup': "isSupportedPackageManagerDescriptor exampleEngine ?d'"
    by (simp add: exampleEngine_def)
  have defn': "definitions exampleEngine (dname ?d') = Some definitionT"
    by (simp add: exampleEngine_def)
  have valid': "semverValid exampleEngine (drange ?d')"
    by (simp add: exampleEngine_def fragment_defs)
  have miss: "findInstalledVersion exampleEngine ?d' freshWorld = (Inr None, freshWorld)"
    by (simp add: exampleEngine_def)
  show ?thesis
    using resolveDescriptor_exact [OF sup defn valid, of freshWorld False True "[]"] hit
          resolveDescriptor_exact [OF sup' defn' valid', of freshWorld False True "[]"] miss
    by simp
qed

section \<open>Resolving a tag\<close>

text \<open>
  Claim C3. Take a descriptor of a supported tool with a definition, whose range is
  neither a valid version nor a valid range expression: a tag. If \<^verbatim>\<open>allowTags\<close> is off,
  \<^verbatim>\<open>resolveDescriptor\<close> fails with \<open>TagsNotAllowed\<close> and calls nothing. If it is on (and the
  definition declares a range), the tag map is requested from the registry of the last
  declared range key, and from no other: it is the one tag request of the whole run. If
  the request fails, its error is passed on. If it answers, the run fails with
  \<open>TagNotFound\<close> exactly when the map does not hold the tag, and stops there; when the
  map sends the tag to \<open>v\<close>, the run goes on as the resolution of the working descriptor
  with range \<open>v\<close>, which for an exact version \<open>v\<close> is what resolving the descriptor with
  range \<open>v\<close> gives, started after the tag request.
\<close>

theorem resolveDescriptor_tag:
  assumes "isSupportedPackageManagerDescriptor E d"
      and "definitions E (dname d) = Some defn"
      and "\<not> semverValid E (drange d)"
      and "\<not> semverValidRange E (drange d)"
  shows "(\<not> allowTags \<longrightarrow>
            resolveDescriptor E d allowTags useCache (w, t) = (Inl TagsNotAllowed, (w, t)))
       \<and> (allowTags \<and> ranges defn \<noteq> [] \<longrightarrow>
            (let registry = getRegistryFromPackageManagerSpec E (snd (last (ranges defn)));
                 asked = (w, t @ [FetchAvailableTags registry]);
                 outcome = resolveDescriptor E d allowTags useCache (w, t)
             in (\<forall>e. fetchAvailableTags E registry = Inl e \<longrightarrow>
                      outcome = (Inl (Rejected e), asked))
              \<and> (\<forall>tags. fetchAvailableTags E registry = Inr tags \<longrightarrow>
                    (fst outcome = Inl (TagNotFound (drange d)) \<longleftrightarrow> tags (drange d) = None)
                  \<and> (tags (drange d) = None \<longrightarrow> snd outcome = asked)
                  \<and> (\<forall>v. tags (drange d) = Some v \<longrightarrow>
                        outcome = resolveFinalDescriptor E defn \<lparr>dname = dname d, drange = v\<rparr>
                                    useCache asked
                      \<and> (semverValid E v
                           \<and> isSupportedPackageManagerDescriptor E \<lparr>dname = dname d, drange = v\<rparr>
                         \<longrightarrow> outcome = resolveDescriptor E \<lparr>dname = dname d, drange = v\<rparr>
                                         allowTags useCache asked)))
              \<and> filter is_tag_request (snd (snd outcome))
                   = filter is_tag_request t @ [FetchAvailableTags registry]))"
proof (intro conjI impI)
  assume "\<not> allowTags"
  then show "resolveDescriptor E d allowTags useCache (w, t) = (Inl TagsNotAllowed, (w, t))"
    using assms
    by (simp add: resolveDescriptor_supported finalDescriptorOf_def await_def throw_def)
next
  assume a: "allowTags \<and> ranges defn \<noteq> []"
  let ?registry = "getRegistryFromPackageManagerSpec E (snd (last (ranges defn)))"
  let ?asked = "(w, t @ [FetchAvailableTags ?registry])"
  let ?outcome = "resolveDescriptor E d allowTags useCache (w, t)"
  have unfold: "?outcome =
     (case fetchAvailableTags E ?registry of
        Inl e \<Rightarrow> (Inl (Rejected e), ?asked)
      | Inr tags \<Rightarrow>
          (case tags (drange d) of
             None \<Rightarrow> (Inl (TagNotFound (drange d)), ?asked)
           | Some v \<Rightarrow> resolveFinalDescriptor E defn \<lparr>dname = dname d, drange = v\<rparr> useCache ?asked))"
    using assms a
    by (simp add: resolveDescriptor_supported finalDescriptorOf_def await_def throw_def
        return_def request_def Let_def split: sum.splits option.splits)
  have failed: "?outcome = (Inl (Rejected e), ?asked)" if "fetchAvailableTags E ?registry = Inl e" for e
    using that by (simp add: unfold)
  have absent: "?outcome = (Inl (TagNotFound (drange d)), ?asked)"
    if "fetchAvailableTags E ?registry = Inr tags" "tags (drange d) = None" for tags
    using that by (simp add: unfold)
  have present: "?outcome = resolveFinalDescriptor E defn \<lparr>dname = dname d, drange = v\<rparr> useCache ?asked"
    if "fetchAvailableTags E ?registry = Inr tags" "tags (drange d) = Some v" for tags v
    using that by (simp add: unfold)
  have notfound_iff: "fst ?outcome = Inl (TagNotFound (drange d)) \<longleftrightarrow> tags (drange d) = None"
    if tags: "fetchAvailableTags E ?registry = Inr tags" for tags
  proof (cases "tags (drange d)")
    case None
    with absent [OF tags] show ?thesis by simp
  next
    case (Some v)
    have "fst ?outcome \<noteq> Inl (TagNotFound (drange d))"
    proof
      assume "fst ?outcome = Inl (TagNotFound (drange d))"
      then have "fst (resolveFinalDescriptor E defn \<lparr>dname = dname d, drange = v\<rparr> useCache ?asked)
                   = Inl (TagNotFound (drange d))"
        by (simp add: present [OF tags Some])
      from resolveFinalDescriptor_error [OF this] show False
        by (auto simp: TagNotFound_def)
    qed
    with Some show ?thesis by simp
  qed
  have again: "?outcome = resolveDescriptor E \<lparr>dname = dname d, drange = v\<rparr> allowTags useCache ?asked"
    if "fetchAvailableTags E ?registry = Inr tags" "tags (drange d) = Some v"
       "semverValid E v" "isSupportedPackageManagerDescriptor E \<lparr>dname = dname d, drange = v\<rparr>"
    for tags v
    using that assms(2)
    by (simp add: present [OF that(1,2)] resolveDescriptor_supported [OF that(4)]
        finalDescriptorOf_valid await_return)
  have only: "filter is_tag_request (snd (snd ?outcome))
                = filter is_tag_request t @ [FetchAvailableTags ?registry]"
    by (simp add: unfold resolveFinalDescriptor_no_tag_request split: sum.splits option.splits)
  show "let registry = getRegistryFromPackageManagerSpec E (snd (last (ranges defn)));
            asked = (w, t @ [FetchAvailableTags registry]);
            outcome = resolveDescriptor E d allowTags useCache (w, t)
        in (\<forall>e. fetchAvailableTags E registry = Inl e \<longrightarrow>
                 outcome = (Inl (Rejected e), asked))
         \<and> (\<forall>tags. fetchAvailableTags E registry = Inr tags \<longrightarrow>
               (fst outcome = Inl (TagNotFound (drange d)) \<longleftrightarrow> tags (drange d) = None)
             \<and> (tags (drange d) = None \<longrightarrow> snd outcome = asked)
             \<and> (\<forall>v. tags (drange d) = Some v \<longrightarrow>
                   outcome = resolveFinalDescriptor E defn \<lparr>dname = dname d, drange = v\<rparr>
                               useCache asked
                 \<and> (semverValid E v
                      \<and> isSupportedPackageManagerDescriptor E \<lparr>dname = dname d, drange = v\<rparr>
                    \<longrightarrow> outcome = resolveDescriptor E \<lparr>dname = dname d, drange = v\<rparr>
                                    allowTags useCache asked)))
         \<and> filter is_tag_request (snd (snd outcome))
              = filter is_tag_request t @ [FetchAvailableTags registry]"
    unfolding Let_def
  proof (intro conjI allI impI)
    fix e
    assume "fetchAvailableTags E ?registry = Inl e"
    then show "?outcome = (Inl (Rejected e), ?asked)" by (rule failed)
  next
    fix tags
    assume "fetchAvailableTags E ?registry = Inr tags"
    then show "fst ?outcome = Inl (TagNotFound (drange d)) \<longleftrightarrow> tags (drange d) = None"
      by (rule notfound_iff)
  next
    fix tags
    assume "fetchAvailableTags E ?registry = Inr tags" "tags (drange d) = None"
    then show "snd ?outcome = ?asked" by (simp add: absent)
  next
    fix tags v
    assume "fetchAvailableTags E ?registry = Inr tags" "tags (drange d) = Some v"
    then show "?outcome = resolveFinalDescriptor E defn \<lparr>dname = dname d, drange = v\<rparr>
                            useCache ?asked"
      by (rule present)
  next
    fix tags v
    assume "fetchAvailableTags E ?registry = Inr tags" "tags (drange d) = Some v"
       "semverValid E v \<and> isSupportedPackageManagerDescriptor E \<lparr>dname = dname d, drange = v\<rparr>"
    then show "?outcome = resolveDescriptor E \<lparr>dname = dname d, drange = v\<rparr>
                            allowTags useCache ?asked"
      using again by blast
  next
    show "filter is_tag_request (snd (snd ?outcome))
            = filter is_tag_request t @ [FetchAvailableTags ?registry]"
      by (rule only)
  qed
qed

theorem resolveDescriptor_tag_witness:
  "resolveDescriptor exampleEngine \<lparr>dname = ''T'', drange = ''latest''\<rparr> False True
       (freshWorld, [])
     = (Inl TagsNotAllowed, (freshWorld, []))
   \<and> resolveDescriptor exampleEngine \<lparr>dname = ''T'', drange = ''latest''\<rparr> True True
       (freshWorld, [])
     = resolveDescriptor exampleEngine \<lparr>dname = ''T'', drange = ''2.0.0''\<rparr> True True
         (freshWorld, [FetchAvailableTags registryB])
   \<and> resolveDescriptor exampleEngine \<lparr>dname = ''T'', drange = ''next''\<rparr> True True
       (freshWorld, [])
     = (Inl (TagNotFound ''next''), (freshWorld, [FetchAvailableTags registryB]))"
proof -
  let ?latest = "\<lparr>dname = ''T'', drange = ''latest''\<rparr>"
  let ?next = "\<lparr>dname = ''T'', drange = ''next''\<rparr>"
  have sup: "isSupportedPackageManagerDescriptor exampleEngine ?latest"
            "isSupportedPackageManagerDescriptor exampleEngine ?next"
    by (simp_all add: exampleEngine_def)
  have defn: "definitions exampleEngine (dname ?latest) = Some definitionT"
             "definitions exampleEngine (dname ?next) = Some definitionT"
    by (simp_all add: exampleEngine_def)
  have tag: "\<not> semverValid exampleEngine (drange ?latest)"
            "\<not> semverValidRange exampleEngine (drange ?latest)"
            "\<not> semverValid exampleEngine (drange ?next)"
            "\<not> semverValidRange exampleEngine (drange ?next)"
    by (simp_all add: exampleEngine_def fragment_defs)
  have last: "getRegistryFromPackageManagerSpec exampleEngine (snd (last (ranges definitionT)))
                = registryB"
             "ranges definitionT \<noteq> []"
    by (simp_all add: exampleEngine_def definitionT_def specB_def)
  have tags: "fetchAvailableTags exampleEngine registryB = Inr [''latest'' \<mapsto> ''2.0.0'']"
    by (simp add: exampleEngine_def)
  have exact: "semverValid exampleEngine ''2.0.0''"
              "isSupportedPackageManagerDescriptor exampleEngine \<lparr>dname = ''T'', drange = ''2.0.0''\<rparr>"
    by (simp_all add: exampleEngine_def fragment_defs)
  show ?thesis
    using resolveDescriptor_tag [OF sup(1) defn(1) tag(1,2), of False True freshWorld "[]"]
          resolveDescriptor_tag [OF sup(1) defn(1) tag(1,2), of True True freshWorld "[]"]
          resolveDescriptor_tag [OF sup(2) defn(2) tag(3,4), of True True freshWorld "[]"]
    by (auto simp add: Let_def last tags exact prod_eq_iff)
qed

section \<open>Facts about the store\<close>

lemma getLastKnownGood_apply:
  "getLastKnownGood (w, t) =
     ((case lkgFile w of
         Inl e \<Rightarrow> if code e = Some ''ENOENT'' then Inr (PlainObject Map.empty)
                  else Inl (Rejected e)
       | Inr NotJson \<Rightarrow> Inr (PlainObject Map.empty)
       | Inr (Json parsed) \<Rightarrow>
           if falsy parsed \<or> \<not> typeof_object parsed then Inr (PlainObject Map.empty)
           else Inr (deleteNonStrings parsed)),
      (w, t @ [ReadFile]))"
  by (cases "lkgFile w")
     (simp_all add: getLastKnownGood_def readFile_def return_def throw_def
        split: content.splits)

lemma not_object_empty:
  "(\<forall>m. v \<noteq> JObject m) \<Longrightarrow> (\<forall>xs. v \<noteq> JArray xs) \<Longrightarrow>
     (if falsy v \<or> \<not> typeof_object v then PlainObject Map.empty else deleteNonStrings v)
       = PlainObject Map.empty"
  by (cases v) simp_all

lemma as_string_Some: "as_string j = Some s \<longleftrightarrow> j = JString s"
  by (cases j) auto

lemma createLastKnownGoodFile_apply:
  "mkdirError w = None \<Longrightarrow> writeError w = None \<Longrightarrow>
     createLastKnownGoodFile lastKnownGood (w, t) =
       (Inr (), (w\<lparr>lkgFile := Inr (Json (JSON_stringify lastKnownGood))\<rparr>,
                 t @ [Mkdir, WriteFile (Json (JSON_stringify lastKnownGood))]))"
  by (simp add: createLastKnownGoodFile_def await_def mkdir_def writeFile_def)

lemma read_back_plain:
  "fst (getLastKnownGood (w\<lparr>lkgFile := Inr (Json (JSON_stringify (PlainObject m)))\<rparr>, t))
     = Inr (PlainObject m)"
proof -
  have "(\<lambda>k. Option.bind (map_option JString (m k)) as_string) = m"
  proof
    fix k show "Option.bind (map_option JString (m k)) as_string = m k"
      by (cases "m k") simp_all
  qed
  then show ?thesis by (simp add: getLastKnownGood_apply)
qed

section \<open>Loading the store\<close>

text \<open>
  \<^verbatim>\<open>getLastKnownGood\<close> reads the file once and changes nothing. A read that fails with code
  \<^verbatim>\<open>ENOENT\<close> gives the empty store; a read that fails with any other error fails with that
  error. A text that does not parse gives the empty store, and so does a text that parses
  to \<^verbatim>\<open>null\<close>, a boolean, a number or a string, which are the values that are falsy or
  whose \<^verbatim>\<open>typeof\<close> is not \<^verbatim>\<open>object\<close>. For an object, the store holds exactly the entries
  whose value is a string. An array is an object to \<^verbatim>\<open>typeof\<close>: it is returned itself, with
  the elements that are not strings deleted. Apart from the read error, no case fails.
\<close>

lemma getLastKnownGood_cases:
  "snd (getLastKnownGood (w, t)) = (w, t @ [ReadFile])
   \<and> (\<forall>e. lkgFile w = Inl e \<longrightarrow>
          fst (getLastKnownGood (w, t)) =
            (if code e = Some ''ENOENT'' then Inr (PlainObject Map.empty) else Inl (Rejected e)))
   \<and> (lkgFile w = Inr NotJson \<longrightarrow> fst (getLastKnownGood (w, t)) = Inr (PlainObject Map.empty))
   \<and> (\<forall>v. lkgFile w = Inr (Json v) \<and> (\<forall>m. v \<noteq> JObject m) \<and> (\<forall>xs. v \<noteq> JArray xs) \<longrightarrow>
          fst (getLastKnownGood (w, t)) = Inr (PlainObject Map.empty))
   \<and> (\<forall>m. lkgFile w = Inr (Json (JObject m)) \<longrightarrow>
          (\<exists>kept. fst (getLastKnownGood (w, t)) = Inr (PlainObject kept)
             \<and> (\<forall>k s. kept k = Some s \<longleftrightarrow> m k = Some (JString s))))
   \<and> (\<forall>xs. lkgFile w = Inr (Json (JArray xs)) \<longrightarrow>
          (\<exists>kept. fst (getLastKnownGood (w, t)) = Inr (ArrayObject kept Map.empty)
             \<and> length kept = length xs
             \<and> (\<forall>i s. i < length xs \<longrightarrow> (kept ! i = Some s \<longleftrightarrow> xs ! i = JString s))))"
proof (intro conjI allI impI)
  show "snd (getLastKnownGood (w, t)) = (w, t @ [ReadFile])"
    by (simp add: getLastKnownGood_apply)
next
  fix e assume "lkgFile w = Inl e"
  then show "fst (getLastKnownGood (w, t)) =
      (if code e = Some ''ENOENT'' then Inr (PlainObject Map.empty) else Inl (Rejected e))"
    by (simp add: getLastKnownGood_apply)
next
  assume "lkgFile w = Inr NotJson"
  then show "fst (getLastKnownGood (w, t)) = Inr (PlainObject Map.empty)"
    by (simp add: getLastKnownGood_apply)
next
  fix v assume "lkgFile w = Inr (Json v) \<and> (\<forall>m. v \<noteq> JObject m) \<and> (\<forall>xs. v \<noteq> JArray xs)"
  then show "fst (getLastKnownGood (w, t)) = Inr (PlainObject Map.empty)"
    using not_object_empty [of v] by (auto simp add: getLastKnownGood_apply)
next
  fix m assume content: "lkgFile w = Inr (Json (JObject m))"
  let ?kept = "\<lambda>k. Option.bind (m k) as_string"
  have "fst (getLastKnownGood (w, t)) = Inr (PlainObject ?kept)"
    by (simp add: getLastKnownGood_apply content)
  moreover have "?kept k = Some s \<longleftrightarrow> m k = Some (JString s)" for k s
    by (cases "m k") (simp_all add: as_string_Some)
  ultimately show "\<exists>kept. fst (getLastKnownGood (w, t)) = Inr (PlainObject kept)
      \<and> (\<forall>k s. kept k = Some s \<longleftrightarrow> m k = Some (JString s))"
    by blast
next
  fix xs assume content: "lkgFile w = Inr (Json (JArray xs))"
  have "fst (getLastKnownGood (w, t)) = Inr (ArrayObject (map as_string xs) Map.empty)"
    by (simp add: getLastKnownGood_apply content)
  moreover have "length (map as_string xs) = length xs" by simp
  moreover have "i < length xs \<longrightarrow> (map as_string xs ! i = Some s \<longleftrightarrow> xs ! i = JString s)" for i s
    by (simp add: as_string_Some)
  ultimately show "\<exists>kept. fst (getLastKnownGood (w, t)) = Inr (ArrayObject kept Map.empty)
      \<and> length kept = length xs
      \<and> (\<forall>i s. i < length xs \<longrightarrow> (kept ! i = Some s \<longleftrightarrow> xs ! i = JString s))"
    by blast
qed

lemma getLastKnownGood_examples:
  "getLastKnownGood (freshWorld, []) = (Inr (PlainObject Map.empty), (freshWorld, [ReadFile]))
   \<and> fst (getLastKnownGood (worldWith NotJson, [])) = Inr (PlainObject Map.empty)
   \<and> fst (getLastKnownGood (worldWith (Json (JNumber 3)), [])) = Inr (PlainObject Map.empty)
   \<and> fst (getLastKnownGood (freshWorld\<lparr>lkgFile := Inl accessDenied\<rparr>, []))
        = Inl (Rejected accessDenied)
   \<and> (case fst (getLastKnownGood (worldWith mixedFile, [])) of
         Inr lastKnownGood \<Rightarrow>
           getLastKnownGoodFromFileContent lastKnownGood ''T'' = Some ''1.22.19''
           \<and> getLastKnownGoodFromFileContent lastKnownGood ''npm'' = None
       | Inl e \<Rightarrow> False)"
proof -
  have missing: "getLastKnownGood (freshWorld, []) = (Inr (PlainObject Map.empty), (freshWorld, [ReadFile]))"
    using getLastKnownGood_cases [of freshWorld "[]"]
    by (simp add: freshWorld_def noFile_def prod_eq_iff)
  have garbage: "fst (getLastKnownGood (worldWith NotJson, [])) = Inr (PlainObject Map.empty)"
    using getLastKnownGood_cases [of "worldWith NotJson" "[]"]
    by (simp add: worldWith_def)
  have number: "fst (getLastKnownGood (worldWith (Json (JNumber 3)), [])) = Inr (PlainObject Map.empty)"
    using getLastKnownGood_cases [of "worldWith (Json (JNumber 3))" "[]"]
    by (simp add: worldWith_def)
  have denied: "fst (getLastKnownGood (freshWorld\<lparr>lkgFile := Inl accessDenied\<rparr>, []))
        = Inl (Rejected accessDenied)"
    using getLastKnownGood_cases [of "freshWorld\<lparr>lkgFile := Inl accessDenied\<rparr>" "[]"]
    by (simp add: accessDenied_def)
  obtain kept where kept:
      "fst (getLastKnownGood (worldWith mixedFile, [])) = Inr (PlainObject kept)"
      "\<And>k s. kept k = Some s \<longleftrightarrow>
         [''T'' \<mapsto> JString ''1.22.19'', ''npm'' \<mapsto> JNumber 7] k = Some (JString s)"
    using getLastKnownGood_cases [of "worldWith mixedFile" "[]"]
    by (auto simp add: worldWith_def mixedFile_def)
  have "kept ''T'' = Some ''1.22.19''" using kept(2) [of "''T''" "''1.22.19''"] by simp
  moreover have "kept ''npm'' = None"
  proof (cases "kept ''npm''")
    case None
    then show ?thesis .
  next
    case (Some s)
    with kept(2) [of "''npm''" s] show ?thesis by simp
  qed
  ultimately have mixed: "case fst (getLastKnownGood (worldWith mixedFile, [])) of
         Inr lastKnownGood \<Rightarrow>
           getLastKnownGoodFromFileContent lastKnownGood ''T'' = Some ''1.22.19''
           \<and> getLastKnownGoodFromFileContent lastKnownGood ''npm'' = None
       | Inl e \<Rightarrow> False"
    by (simp add: kept(1) getLastKnownGoodFromFileContent_def)
  from missing garbage number denied mixed show ?thesis by blast
qed

text \<open>
  Claim C9 fails when the file holds a JSON array, here \<^verbatim>\<open>["1.22.19", 7]\<close>: content that
  parses and is not the object the store is declared to be,
  \<^verbatim>\<open>Record<string, string>\<close>. The claim has such content loaded as the empty store. The
  test of line 46, \<^verbatim>\<open>typeof parsed !== `object`\<close>, lets every array through, so the array
  itself is returned, with its string element kept and a hole where the number was. It is
  not the empty store \<^verbatim>\<open>{}\<close>, and it does not behave as one: an entry set on it is left
  out by \<^verbatim>\<open>JSON.stringify\<close>, where the empty store would write the entry. The loading
  itself does not raise, and the rest of the claim holds, as the lemmas above show.
\<close>

theorem getLastKnownGood_on_array_file:
  "getLastKnownGood (worldWith arrayFile, [])
     = (Inr (ArrayObject [Some ''1.22.19'', None] Map.empty), (worldWith arrayFile, [ReadFile]))
   \<and> getLastKnownGood (worldWith arrayFile, [])
     \<noteq> (Inr (PlainObject Map.empty), (worldWith arrayFile, [ReadFile]))
   \<and> JSON_stringify (setProperty (ArrayObject [Some ''1.22.19'', None] Map.empty)
         ''T'' (Some ''2.0.0''))
     = JArray [JString ''1.22.19'', JNull]
   \<and> JSON_stringify (setProperty (PlainObject Map.empty) ''T'' (Some ''2.0.0''))
     = JObject [''T'' \<mapsto> JString ''2.0.0'']"
  by (simp add: getLastKnownGood_apply arrayFile_def worldWith_def fun_eq_iff)

section \<open>Activation\<close>

text \<open>
  When the file holds an object (or is missing, or does not hold an object at all) and
  the home folder can be written, activation is idempotent: the first call writes once
  unless the entry is already there, the second call writes nothing, and the store read
  afterwards holds the reference under the name.
\<close>

lemma Engine_activatePackageManager_plain:
  assumes "fst (getLastKnownGood (w, t)) = Inr (PlainObject m)"
      and "mkdirError w = None" and "writeError w = None"
  shows "Engine_activatePackageManager loc (w, t) =
     (if m (lname loc) = reference loc then (Inr (), (w, t @ [ReadFile]))
      else (Inr (),
            (w\<lparr>lkgFile := Inr (Json (JSON_stringify
                               (PlainObject (m(lname loc := reference loc)))))\<rparr>,
             t @ [ReadFile, Mkdir,
                  WriteFile (Json (JSON_stringify
                               (PlainObject (m(lname loc := reference loc)))))])))"
proof -
  have read: "getLastKnownGood (w, t) = (Inr (PlainObject m), (w, t @ [ReadFile]))"
    using assms(1) by (simp add: getLastKnownGood_apply prod_eq_iff)
  show ?thesis
    by (simp add: Engine_activatePackageManager_def await_def read activatePackageManager_def
        return_def createLastKnownGoodFile_apply [OF assms(2,3)])
qed

lemma Engine_activatePackageManager_plain_twice:
  assumes "fst (getLastKnownGood (w, t)) = Inr (PlainObject m)"
      and "mkdirError w = None" and "writeError w = None"
      and "Engine_activatePackageManager loc (w, t) = (r1, s1)"
      and "Engine_activatePackageManager loc s1 = (r2, s2)"
  shows "r1 = Inr () \<and> r2 = Inr ()
       \<and> length (filter is_write (snd s2)) =
           length (filter is_write t) + (if m (lname loc) = reference loc then 0 else 1)
       \<and> fst (getLastKnownGood s2) = Inr (PlainObject (m(lname loc := reference loc)))"
proof (cases "m (lname loc) = reference loc")
  case True
  then have same: "m(lname loc := reference loc) = m" by auto
  have first: "(r1, s1) = (Inr (), (w, t @ [ReadFile]))"
    using Engine_activatePackageManager_plain [OF assms(1-3), of loc] assms(4) True by simp
  have again: "fst (getLastKnownGood (w, t @ [ReadFile])) = Inr (PlainObject m)"
    using assms(1) by (simp add: getLastKnownGood_apply)
  have second: "(r2, s2) = (Inr (), (w, t @ [ReadFile] @ [ReadFile]))"
    using Engine_activatePackageManager_plain [OF again assms(2,3), of loc] assms(5) first True
    by simp
  have final: "fst (getLastKnownGood (w, t @ [ReadFile] @ [ReadFile])) = Inr (PlainObject m)"
    using assms(1) by (simp add: getLastKnownGood_apply)
  show ?thesis
    using first second final True by (simp add: same)
next
  case False
  let ?m = "m(lname loc := reference loc)"
  let ?c = "Json (JSON_stringify (PlainObject ?m))"
  let ?w = "w\<lparr>lkgFile := Inr ?c\<rparr>"
  let ?t = "t @ [ReadFile, Mkdir, WriteFile ?c]"
  have first: "(r1, s1) = (Inr (), (?w, ?t))"
    using Engine_activatePackageManager_plain [OF assms(1-3), of loc] assms(4) False by simp
  have again: "fst (getLastKnownGood (?w, ?t)) = Inr (PlainObject ?m)"
    by (rule read_back_plain)
  have errs: "mkdirError ?w = None" "writeError ?w = None"
    using assms(2,3) by simp_all
  have second: "(r2, s2) = (Inr (), (?w, ?t @ [ReadFile]))"
    using Engine_activatePackageManager_plain [OF again errs, of loc] assms(5) first
    by simp
  have final: "fst (getLastKnownGood (?w, ?t @ [ReadFile])) = Inr (PlainObject ?m)"
    by (rule read_back_plain)
  show ?thesis
    using first second final False by simp
qed

text \<open>
  Claim C8 fails when the file holds a JSON array, here \<^verbatim>\<open>[]\<close>. The array passes the test
  \<^verbatim>\<open>typeof parsed !== `object`\<close> of line 46 and is returned as the store. Line 78 sets the
  entry as a named property of the array, which \<^verbatim>\<open>JSON.stringify\<close> leaves out at line 61,
  so the file is written as \<^verbatim>\<open>[]\<close> again. Activating the same locator twice writes
  twice, and the store read afterwards has no entry for the tool.
\<close>

theorem activate_twice_on_array_file:
  "Engine_activatePackageManager \<lparr>lname = ''T'', reference = Some ''1.22.19''\<rparr> (arrayWorld, [])
     = (Inr (), (arrayWorld, [ReadFile, Mkdir, WriteFile (Json (JArray []))]))
   \<and> Engine_activatePackageManager \<lparr>lname = ''T'', reference = Some ''1.22.19''\<rparr>
       (arrayWorld, [ReadFile, Mkdir, WriteFile (Json (JArray []))])
     = (Inr (), (arrayWorld, [ReadFile, Mkdir, WriteFile (Json (JArray [])),
                              ReadFile, Mkdir, WriteFile (Json (JArray []))]))
   \<and> fst (getLastKnownGood (arrayWorld, [])) = Inr (ArrayObject [] Map.empty)
   \<and> getLastKnownGoodFromFileContent (ArrayObject [] Map.empty) ''T'' = None"
  by (simp add: Engine_activatePackageManager_def activatePackageManager_def
      getLastKnownGood_apply createLastKnownGoodFile_def mkdir_def writeFile_def await_def
      return_def getLastKnownGoodFromFileContent_def arrayWorld_def worldWith_def freshWorld_def)

section \<open>The default version\<close>

lemma getDefaultVersion_unfold:
  assumes "definitions E pm = Some defn" and "getLastKnownGood s = (Inr lkg, s1)"
  shows "getDefaultVersion E pm s =
     (if truthy (getProperty lkg pm) then (Inr (the (getProperty lkg pm)), s1)
      else if process_env E ''COREPACK_DEFAULT_TO_LATEST'' = Some ''0'' then
        (Inr (defaultVersion defn), s1)
      else
        (case fetchLatestStableVersion E (fetchLatestFrom defn) of
           Inl e \<Rightarrow>
             (Inl (Rejected e), (fst s1, snd s1 @ [FetchLatestStableVersion (fetchLatestFrom defn)]))
         | Inr ref \<Rightarrow>
             (Inr ref,
              snd (activatePackageManager lkg \<lparr>lname = pm, reference = Some ref\<rparr>
                     (fst s1, snd s1 @ [FetchLatestStableVersion (fetchLatestFrom defn)])))))"
  using assms
  by (cases s1)
     (simp add: getDefaultVersion_def await_def return_def request_def try_catch_def
        getLastKnownGoodFromFileContent_def Let_def split: sum.splits prod.splits)

text \<open>
  Claim C7, as amended. For a tool with a definition, once the store is read:
  if the store has an entry for the tool that is not the empty string,
  \<^verbatim>\<open>getDefaultVersion\<close> returns it, with no other call; if the store has no entry, or the
  empty string, it returns the definition's static default when
  \<^verbatim>\<open>COREPACK_DEFAULT_TO_LATEST\<close> is \<^verbatim>\<open>0\<close>, and otherwise the latest stable version the
  registry reports (or the error of that request).
\<close>

theorem getDefaultVersion_choice:
  assumes "definitions E pm = Some defn" and "getLastKnownGood s = (Inr lkg, s1)"
  shows "(\<forall>v. getLastKnownGoodFromFileContent lkg pm = Some v \<and> v \<noteq> [] \<longrightarrow>
            getDefaultVersion E pm s = (Inr v, s1))
       \<and> (getLastKnownGoodFromFileContent lkg pm = None
            \<or> getLastKnownGoodFromFileContent lkg pm = Some [] \<longrightarrow>
            (process_env E ''COREPACK_DEFAULT_TO_LATEST'' = Some ''0'' \<longrightarrow>
               getDefaultVersion E pm s = (Inr (defaultVersion defn), s1))
          \<and> (process_env E ''COREPACK_DEFAULT_TO_LATEST'' \<noteq> Some ''0'' \<longrightarrow>
               (\<forall>ref. fetchLatestStableVersion E (fetchLatestFrom defn) = Inr ref \<longrightarrow>
                  fst (getDefaultVersion E pm s) = Inr ref)
             \<and> (\<forall>e. fetchLatestStableVersion E (fetchLatestFrom defn) = Inl e \<longrightarrow>
                  fst (getDefaultVersion E pm s) = Inl (Rejected e))))"
  by (auto simp add: getDefaultVersion_unfold [OF assms] getLastKnownGoodFromFileContent_def)

text \<open>
  The claim as first stated returns the entry whenever there is one. An entry that is the
  empty string is not returned: line 168 tests the truthiness of the entry. With the file
  \<^verbatim>\<open>{"T": ""}\<close> and \<^verbatim>\<open>COREPACK_DEFAULT_TO_LATEST=0\<close> the result is the static default.
\<close>

theorem getDefaultVersion_choice_counterexample:
  "fst (getLastKnownGood (worldWith emptyEntryFile, [])) = Inr (PlainObject [''T'' \<mapsto> []])
   \<and> getLastKnownGoodFromFileContent (PlainObject [''T'' \<mapsto> []]) ''T'' = Some []
   \<and> definitions staticEngine ''T'' = Some definitionT
   \<and> fst (getDefaultVersion staticEngine ''T'' (worldWith emptyEntryFile, [])) = Inr ''1.22.19''"
proof -
  have store: "fst (getLastKnownGood (worldWith emptyEntryFile, []))
                 = Inr (PlainObject [''T'' \<mapsto> []])"
    by (simp add: getLastKnownGood_apply worldWith_def emptyEntryFile_def fun_eq_iff)
  have run: "fst (getDefaultVersion staticEngine ''T'' (worldWith emptyEntryFile, []))
               = Inr ''1.22.19''"
    by (simp add: getLastKnownGood_apply getLastKnownGoodFromFileContent_def worldWith_def
        emptyEntryFile_def freshWorld_def staticEngine_def exampleEngine_def definitionT_def
        getDefaultVersion_def await_def return_def)
  show ?thesis
    using store run
    by (simp add: getLastKnownGoodFromFileContent_def staticEngine_def exampleEngine_def)
qed

theorem getDefaultVersion_choice_witness:
  "getDefaultVersion exampleEngine ''T'' (worldWith pinnedFile, [])
     = (Inr ''1.21.0'', (worldWith pinnedFile, [ReadFile]))
   \<and> getDefaultVersion staticEngine ''T'' (freshWorld, [])
     = (Inr ''1.22.19'', (freshWorld, [ReadFile]))
   \<and> getDefaultVersion staticEngine ''T'' (worldWith emptyEntryFile, [])
     = (Inr ''1.22.19'', (worldWith emptyEntryFile, [ReadFile]))
   \<and> fst (getDefaultVersion exampleEngine ''T'' (freshWorld, [])) = Inr ''2.0.0''"
proof -
  let ?pinned = "PlainObject (\<lambda>k. Option.bind ([''T'' \<mapsto> JString ''1.21.0''] k) as_string)"
  let ?emptyEntry = "PlainObject (\<lambda>k. Option.bind ([''T'' \<mapsto> JString []] k) as_string)"
  have defn: "definitions exampleEngine ''T'' = Some definitionT"
             "definitions staticEngine ''T'' = Some definitionT"
    by (simp_all add: staticEngine_def exampleEngine_def)
  have read_pinned: "getLastKnownGood (worldWith pinnedFile, [])
                       = (Inr ?pinned, (worldWith pinnedFile, [ReadFile]))"
    by (simp add: getLastKnownGood_apply worldWith_def pinnedFile_def)
  have read_fresh: "getLastKnownGood (freshWorld, [])
                      = (Inr (PlainObject Map.empty), (freshWorld, [ReadFile]))"
    by (simp add: getLastKnownGood_apply freshWorld_def noFile_def)
  have read_empty: "getLastKnownGood (worldWith emptyEntryFile, [])
                      = (Inr ?emptyEntry, (worldWith emptyEntryFile, [ReadFile]))"
    by (simp add: getLastKnownGood_apply worldWith_def emptyEntryFile_def)
  have env: "process_env staticEngine ''COREPACK_DEFAULT_TO_LATEST'' = Some ''0''"
            "process_env exampleEngine ''COREPACK_DEFAULT_TO_LATEST'' \<noteq> Some ''0''"
    by (simp_all add: staticEngine_def exampleEngine_def)
  have latest: "fetchLatestStableVersion exampleEngine (fetchLatestFrom definitionT) = Inr ''2.0.0''"
    by (simp add: exampleEngine_def definitionT_def)
  have static: "defaultVersion definitionT = ''1.22.19''"
    by (simp add: definitionT_def)
  show ?thesis
    using getDefaultVersion_choice [OF defn(1) read_pinned]
          getDefaultVersion_choice [OF defn(2) read_fresh]
          getDefaultVersion_choice [OF defn(2) read_empty]
          getDefaultVersion_choice [OF defn(1) read_fresh]
    by (simp add: getLastKnownGoodFromFileContent_def env latest static)
qed

section \<open>Best-effort writes\<close>

lemma findProjectSpec_NoSpec_unfold:
  assumes "process_env E ''COREPACK_ENABLE_PROJECT_SPEC'' \<noteq> Some ''0''"
      and "loadSpec E cwd w = (Inr (NoSpec target), w1)"
      and "process_env E ''COREPACK_ENABLE_AUTO_PIN'' \<noteq> Some ''0''"
  shows "findProjectSpec E cwd loc transparent (w, t) =
     (case resolveDescriptor E (fallbackDescriptor loc) True True (w1, t @ [LoadSpec cwd]) of
        (Inl e, s2) \<Rightarrow> (Inl e, s2)
      | (Inr None, s2) \<Rightarrow> (Inl (ResolutionFailed (fallbackDescriptor loc)), s2)
      | (Inr (Some r), s2) \<Rightarrow>
          (case ensurePackageManager E r s2 of
             (Inl e, s3) \<Rightarrow> (Inl e, s3)
           | (Inr installSpec, (w3, t3)) \<Rightarrow>
               (case setLocalPackageManager E (path_dirname E target) installSpec w3 of
                  (Inl e, w4) \<Rightarrow>
                    (Inl (Rejected e),
                     (w4, t3 @ [SetLocalPackageManager (path_dirname E target) installSpec]))
                | (Inr u, w4) \<Rightarrow>
                    (Inr (fallbackDescriptor loc),
                     (w4, t3 @ [SetLocalPackageManager (path_dirname E target) installSpec])))))"
  using assms
  by (simp add: findProjectSpec_def await_def invoke_def return_def throw_def Let_def
      split: prod.splits sum.splits option.splits)

text \<open>
  Claim C6, as amended. In \<^verbatim>\<open>getDefaultVersion\<close>, recording the freshly fetched version
  is best effort: whatever \<^verbatim>\<open>activatePackageManager\<close> does, fail or succeed,
  \<^verbatim>\<open>getDefaultVersion\<close> returns the fetched version. The auto-pin of \<^verbatim>\<open>findProjectSpec\<close>
  (the loader answers \<open>NoSpec\<close>, and neither the lookup nor the auto-pin is disabled) is
  not: a failure of the resolution, of the installation or of the write of the pin is the
  failure of \<^verbatim>\<open>findProjectSpec\<close>, and a resolution to \<^verbatim>\<open>null\<close> fails with
  \<open>ResolutionFailed\<close>; the fallback descriptor is returned when all three succeed.
\<close>

theorem best_effort_writes:
  "(\<forall>defn lkg s1 ref r s2.
       definitions E pm = Some defn
       \<and> getLastKnownGood s = (Inr lkg, s1)
       \<and> \<not> truthy (getLastKnownGoodFromFileContent lkg pm)
       \<and> process_env E ''COREPACK_DEFAULT_TO_LATEST'' \<noteq> Some ''0''
       \<and> fetchLatestStableVersion E (fetchLatestFrom defn) = Inr ref
       \<and> activatePackageManager lkg \<lparr>lname = pm, reference = Some ref\<rparr>
            (fst s1, snd s1 @ [FetchLatestStableVersion (fetchLatestFrom defn)]) = (r, s2)
       \<longrightarrow> getDefaultVersion E pm s = (Inr ref, s2))
   \<and> (\<forall>target w1.
         process_env E ''COREPACK_ENABLE_PROJECT_SPEC'' \<noteq> Some ''0''
         \<and> process_env E ''COREPACK_ENABLE_AUTO_PIN'' \<noteq> Some ''0''
         \<and> loadSpec E cwd w = (Inr (NoSpec target), w1)
         \<longrightarrow>
         (\<forall>e s2. resolveDescriptor E (fallbackDescriptor loc) True True (w1, t @ [LoadSpec cwd])
                    = (Inl e, s2) \<longrightarrow>
                  findProjectSpec E cwd loc transparent (w, t) = (Inl e, s2))
       \<and> (\<forall>s2. resolveDescriptor E (fallbackDescriptor loc) True True (w1, t @ [LoadSpec cwd])
                    = (Inr None, s2) \<longrightarrow>
                  findProjectSpec E cwd loc transparent (w, t)
                    = (Inl (ResolutionFailed (fallbackDescriptor loc)), s2))
       \<and> (\<forall>r s2. resolveDescriptor E (fallbackDescriptor loc) True True (w1, t @ [LoadSpec cwd])
                    = (Inr (Some r), s2) \<longrightarrow>
              (\<forall>e s3. ensurePackageManager E r s2 = (Inl e, s3) \<longrightarrow>
                  findProjectSpec E cwd loc transparent (w, t) = (Inl e, s3))
            \<and> (\<forall>installSpec w3 t3. ensurePackageManager E r s2 = (Inr installSpec, (w3, t3)) \<longrightarrow>
                  (\<forall>e w4. setLocalPackageManager E (path_dirname E target) installSpec w3
                             = (Inl e, w4) \<longrightarrow>
                     findProjectSpec E cwd loc transparent (w, t)
                       = (Inl (Rejected e),
                          (w4, t3 @ [SetLocalPackageManager (path_dirname E target) installSpec])))
                \<and> (\<forall>w4. setLocalPackageManager E (path_dirname E target) installSpec w3
                             = (Inr (), w4) \<longrightarrow>
                     findProjectSpec E cwd loc transparent (w, t)
                       = (Inr (fallbackDescriptor loc),
                          (w4, t3 @ [SetLocalPackageManager (path_dirname E target) installSpec]))))))"
proof (intro conjI allI impI)
  fix defn lkg s1 ref r s2
  assume a: "definitions E pm = Some defn
       \<and> getLastKnownGood s = (Inr lkg, s1)
       \<and> \<not> truthy (getLastKnownGoodFromFileContent lkg pm)
       \<and> process_env E ''COREPACK_DEFAULT_TO_LATEST'' \<noteq> Some ''0''
       \<and> fetchLatestStableVersion E (fetchLatestFrom defn) = Inr ref
       \<and> activatePackageManager lkg \<lparr>lname = pm, reference = Some ref\<rparr>
            (fst s1, snd s1 @ [FetchLatestStableVersion (fetchLatestFrom defn)]) = (r, s2)"
  then have d: "definitions E pm = Some defn" and g: "getLastKnownGood s = (Inr lkg, s1)"
    by simp_all
  show "getDefaultVersion E pm s = (Inr ref, s2)"
    using a by (simp add: getDefaultVersion_unfold [OF d g] getLastKnownGoodFromFileContent_def)
qed (simp_all add: findProjectSpec_NoSpec_unfold)

text \<open>
  The claim as first stated has \<^verbatim>\<open>findProjectSpec\<close> return the fallback descriptor when the
  write of the pin fails. Lines 251 to 261 are not inside a \<^verbatim>\<open>try\<close>: with a project file
  that cannot be written, \<^verbatim>\<open>findProjectSpec\<close> fails with the error of the write.
\<close>

theorem best_effort_writes_counterexample:
  "process_env readOnlyProject ''COREPACK_ENABLE_PROJECT_SPEC'' \<noteq> Some ''0''
   \<and> process_env readOnlyProject ''COREPACK_ENABLE_AUTO_PIN'' \<noteq> Some ''0''
   \<and> fst (loadSpec readOnlyProject ''/project'' freshWorld) = Inr (NoSpec ''/project/package.json'')
   \<and> fst (findProjectSpec readOnlyProject ''/project''
             \<lparr>lname = ''T'', reference = Some ''1.22.19''\<rparr> False (freshWorld, []))
      = Inl (Rejected accessDenied)"
  by (simp add: readOnlyProject_def projectWithoutPin_def example_defs fragment_defs
      findProjectSpec_def fallbackDescriptor_def engine_defs)

theorem best_effort_writes_witness:
  "fst (activatePackageManager (PlainObject Map.empty) \<lparr>lname = ''T'', reference = Some ''2.0.0''\<rparr>
          (readOnlyHome, [ReadFile, FetchLatestStableVersion registryB]))
     = Inl (Rejected accessDenied)
   \<and> fst (getDefaultVersion exampleEngine ''T'' (readOnlyHome, [])) = Inr ''2.0.0''
   \<and> fst (findProjectSpec readOnlyProject ''/project''
             \<lparr>lname = ''T'', reference = Some ''1.22.19''\<rparr> False (freshWorld, []))
     = Inl (Rejected accessDenied)
   \<and> fst (findProjectSpec projectWithoutPin ''/project''
             \<lparr>lname = ''T'', reference = Some ''1.22.19''\<rparr> False (freshWorld, []))
     = Inr \<lparr>dname = ''T'', drange = ''1.22.19''\<rparr>"
proof -
  let ?loc = "\<lparr>lname = ''T'', reference = Some ''1.22.19''\<rparr>"
  let ?latest = "\<lparr>lname = ''T'', reference = Some ''2.0.0''\<rparr>"
  let ?s1 = "(readOnlyHome, [ReadFile])"
  let ?installed = "\<lparr>prepared_info = \<lparr>hash = ''sha1.0a'', location = ''/cache''\<rparr>,
                     prepared_locator = \<lparr>lname = ''T'', reference = Some ''1.22.19+sha1.0a''\<rparr>,
                     prepared_spec = specA\<rparr>"
  let ?t3 = "[LoadSpec ''/project'', FindInstalledVersion \<lparr>dname = ''T'', drange = ''1.22.19''\<rparr>,
              InstallVersion ?loc specA]"
  have failing: "fst (activatePackageManager (PlainObject Map.empty) ?latest
                        (readOnlyHome, [ReadFile, FetchLatestStableVersion registryB]))
                   = Inl (Rejected accessDenied)"
    by (simp add: activatePackageManager_def createLastKnownGoodFile_def mkdir_def writeFile_def
        await_def readOnlyHome_def freshWorld_def)
  obtain r s2 where attempt:
      "activatePackageManager (PlainObject Map.empty) \<lparr>lname = ''T'', reference = Some ''2.0.0''\<rparr>
         (fst ?s1, snd ?s1 @ [FetchLatestStableVersion (fetchLatestFrom definitionT)]) = (r, s2)"
    by (cases "activatePackageManager (PlainObject Map.empty)
                 \<lparr>lname = ''T'', reference = Some ''2.0.0''\<rparr>
                 (fst ?s1, snd ?s1 @ [FetchLatestStableVersion (fetchLatestFrom definitionT)])")
  have latest: "definitions exampleEngine ''T'' = Some definitionT
       \<and> getLastKnownGood (readOnlyHome, []) = (Inr (PlainObject Map.empty), ?s1)
       \<and> \<not> truthy (getLastKnownGoodFromFileContent (PlainObject Map.empty) ''T'')
       \<and> process_env exampleEngine ''COREPACK_DEFAULT_TO_LATEST'' \<noteq> Some ''0''
       \<and> fetchLatestStableVersion exampleEngine (fetchLatestFrom definitionT) = Inr ''2.0.0''"
    by (simp add: exampleEngine_def definitionT_def getLastKnownGood_apply readOnlyHome_def
        freshWorld_def noFile_def getLastKnownGoodFromFileContent_def)
  have default: "fst (getDefaultVersion exampleEngine ''T'' (readOnlyHome, [])) = Inr ''2.0.0''"
    using best_effort_writes [of exampleEngine "''T''" "(readOnlyHome, [])"] latest attempt
    by (metis fst_conv)
  have env: "process_env readOnlyProject ''COREPACK_ENABLE_PROJECT_SPEC'' \<noteq> Some ''0''
       \<and> process_env readOnlyProject ''COREPACK_ENABLE_AUTO_PIN'' \<noteq> Some ''0''
       \<and> loadSpec readOnlyProject ''/project'' freshWorld
           = (Inr (NoSpec ''/project/package.json''), freshWorld)"
       "process_env projectWithoutPin ''COREPACK_ENABLE_PROJECT_SPEC'' \<noteq> Some ''0''
       \<and> process_env projectWithoutPin ''COREPACK_ENABLE_AUTO_PIN'' \<noteq> Some ''0''
       \<and> loadSpec projectWithoutPin ''/project'' freshWorld
           = (Inr (NoSpec ''/project/package.json''), freshWorld)"
    by (simp_all add: readOnlyProject_def projectWithoutPin_def exampleEngine_def)
  have resolved:
      "resolveDescriptor readOnlyProject (fallbackDescriptor ?loc) True True
         (freshWorld, [] @ [LoadSpec ''/project''])
         = (Inr (Some ?loc), (freshWorld, [LoadSpec ''/project'',
              FindInstalledVersion \<lparr>dname = ''T'', drange = ''1.22.19''\<rparr>]))"
      "resolveDescriptor projectWithoutPin (fallbackDescriptor ?loc) True True
         (freshWorld, [] @ [LoadSpec ''/project''])
         = (Inr (Some ?loc), (freshWorld, [LoadSpec ''/project'',
              FindInstalledVersion \<lparr>dname = ''T'', drange = ''1.22.19''\<rparr>]))"
    by (simp_all add: readOnlyProject_def projectWithoutPin_def example_defs fragment_defs
        fallbackDescriptor_def engine_defs)
  have installed:
      "ensurePackageManager readOnlyProject ?loc (freshWorld, [LoadSpec ''/project'',
              FindInstalledVersion \<lparr>dname = ''T'', drange = ''1.22.19''\<rparr>])
         = (Inr ?installed, (freshWorld, ?t3))"
      "ensurePackageManager projectWithoutPin ?loc (freshWorld, [LoadSpec ''/project'',
              FindInstalledVersion \<lparr>dname = ''T'', drange = ''1.22.19''\<rparr>])
         = (Inr ?installed, (freshWorld, ?t3))"
    by (simp_all add: readOnlyProject_def projectWithoutPin_def example_defs fragment_defs
        engine_defs)
  have pin:
      "setLocalPackageManager readOnlyProject
         (path_dirname readOnlyProject ''/project/package.json'') ?installed freshWorld
         = (Inl accessDenied, freshWorld)"
      "setLocalPackageManager projectWithoutPin
         (path_dirname projectWithoutPin ''/project/package.json'') ?installed freshWorld
         = (Inr (), freshWorld)"
    by (simp_all add: readOnlyProject_def projectWithoutPin_def exampleEngine_def)
  have refused: "fst (findProjectSpec readOnlyProject ''/project'' ?loc False (freshWorld, []))
                   = Inl (Rejected accessDenied)"
    using best_effort_writes [of readOnlyProject "''T''" "(freshWorld, [])" "''/project''"
            freshWorld ?loc "[]" False] env(1) resolved(1) installed(1) pin(1)
    by (metis fst_conv)
  have pinned: "fst (findProjectSpec projectWithoutPin ''/project'' ?loc False (freshWorld, []))
                  = Inr (fallbackDescriptor ?loc)"
    using best_effort_writes [of projectWithoutPin "''T''" "(freshWorld, [])" "''/project''"
            freshWorld ?loc "[]" False] env(2) resolved(2) installed(2) pin(2)
    by (metis fst_conv)
  from failing default refused pinned show ?thesis
    by (simp add: fallbackDescriptor_def)
qed

section \<open>A request for a binary of no known tool\<close>






end
